theory Spec2Isabelle
  imports Complex_Main "HOL-Library.Word"
begin

section \<open>JavaScript dates\<close>

text \<open>
  The quota engine of \<^verbatim>\<open>users.service.ts\<close> computes with the JavaScript \<^verbatim>\<open>Date\<close>
  object. A \<^verbatim>\<open>Date\<close> is modelled by its time value, the number of milliseconds since
  1 January 1970 UTC, and the accessors and the constructor follow the abstract
  operations of ECMA-262 (\<^verbatim>\<open>Day\<close>, \<^verbatim>\<open>DayFromYear\<close>, \<^verbatim>\<open>YearFromTime\<close>, \<^verbatim>\<open>MonthFromTime\<close>,
  \<^verbatim>\<open>DateFromTime\<close>, \<^verbatim>\<open>MakeTime\<close>, \<^verbatim>\<open>MakeDay\<close>, \<^verbatim>\<open>MakeDate\<close>).

  Two readings of the accessors and of the constructor are given. The first, used for
  the quota rollover, takes the local time zone to be UTC with no daylight saving
  (\<^verbatim>\<open>LocalTZA = 0\<close>, so \<^verbatim>\<open>getHours\<close> is \<^verbatim>\<open>getUTCHours\<close>) and time values to be unbounded
  integers, so that \<^verbatim>\<open>TimeClip\<close> (beyond about year 275760) and \<^verbatim>\<open>Invalid Date\<close> are
  outside of it. The second, used for the calendar arithmetic of \<^verbatim>\<open>addOneMonth\<close>, takes
  the time zone of the process as a parameter and has \<^verbatim>\<open>TimeClip\<close> and \<^verbatim>\<open>Invalid Date\<close>;
  its names end in \<open>_tz\<close>. JavaScript numbers are modelled by \<^typ>\<open>int\<close>, exact below
  \<open>2^53\<close>.
\<close>

type_synonym Date = int

definition msPerDay :: int where "msPerDay = 86400000"
definition msPerHour :: int where "msPerHour = 3600000"
definition msPerMinute :: int where "msPerMinute = 60000"
definition msPerSecond :: int where "msPerSecond = 1000"

definition Day :: "int \<Rightarrow> int" where
  "Day t = t div msPerDay"

definition TimeWithinDay :: "int \<Rightarrow> int" where
  "TimeWithinDay t = t mod msPerDay"

definition DaysInYear :: "int \<Rightarrow> int" where
  "DaysInYear y =
     (if y mod 4 \<noteq> 0 then 365
      else if y mod 100 \<noteq> 0 then 366
      else if y mod 400 \<noteq> 0 then 365
      else 366)"

definition DayFromYear :: "int \<Rightarrow> int" where
  "DayFromYear y =
     365 * (y - 1970) + (y - 1969) div 4 - (y - 1901) div 100 + (y - 1601) div 400"

text \<open>
  ECMA-262 specifies \<^verbatim>\<open>YearFromTime(t)\<close> as the largest integer \<open>y\<close> with
  \<^verbatim>\<open>TimeFromYear(y) \<le> t\<close>. The executable form below estimates the year from the mean
  length of a Gregorian year and corrects the estimate by at most one; lemma
  \<open>YearFromDay_greatest\<close> shows that it is that largest integer.
\<close>

definition YearFromDay :: "int \<Rightarrow> int" where
  "YearFromDay d =
     (let y = 1970 + (400 * d) div 146097
      in if DayFromYear (y + 1) \<le> d then y + 1
         else if DayFromYear y \<le> d then y
         else y - 1)"

definition YearFromTime :: "int \<Rightarrow> int" where
  "YearFromTime t = YearFromDay (Day t)"

definition InLeapYear :: "int \<Rightarrow> int" where
  "InLeapYear t = (if DaysInYear (YearFromTime t) = 366 then 1 else 0)"

definition DayWithinYear :: "int \<Rightarrow> int" where
  "DayWithinYear t = Day t - DayFromYear (YearFromTime t)"

definition MonthFromTime :: "int \<Rightarrow> int" where
  "MonthFromTime t =
     (let d = DayWithinYear t; L = InLeapYear t
      in if d < 31 then 0
         else if d < 59 + L then 1
         else if d < 90 + L then 2
         else if d < 120 + L then 3
         else if d < 151 + L then 4
         else if d < 181 + L then 5
         else if d < 212 + L then 6
         else if d < 243 + L then 7
         else if d < 273 + L then 8
         else if d < 304 + L then 9
         else if d < 334 + L then 10
         else 11)"

definition DateFromTime :: "int \<Rightarrow> int" where
  "DateFromTime t =
     (let d = DayWithinYear t; L = InLeapYear t; m = MonthFromTime t
      in if m = 0 then d + 1
         else if m = 1 then d - 30
         else if m = 2 then d - 58 - L
         else if m = 3 then d - 89 - L
         else if m = 4 then d - 119 - L
         else if m = 5 then d - 150 - L
         else if m = 6 then d - 180 - L
         else if m = 7 then d - 211 - L
         else if m = 8 then d - 242 - L
         else if m = 9 then d - 272 - L
         else if m = 10 then d - 303 - L
         else d - 333 - L)"

definition HourFromTime :: "int \<Rightarrow> int" where
  "HourFromTime t = (t div msPerHour) mod 24"

definition MinFromTime :: "int \<Rightarrow> int" where
  "MinFromTime t = (t div msPerMinute) mod 60"

definition SecFromTime :: "int \<Rightarrow> int" where
  "SecFromTime t = (t div msPerSecond) mod 60"

definition msFromTime :: "int \<Rightarrow> int" where
  "msFromTime t = t mod msPerSecond"

definition MakeTime :: "int \<Rightarrow> int \<Rightarrow> int \<Rightarrow> int \<Rightarrow> int" where
  "MakeTime hour minute sec ms =
     hour * msPerHour + minute * msPerMinute + sec * msPerSecond + ms"

text \<open>
  \<^verbatim>\<open>MakeDay(year, month, date)\<close> normalises the month into the year, finds the day
  number of the first day of that month and adds \<open>date - 1\<close>; a \<open>date\<close> of 0 is the last
  day of the month before. \<open>DayOfMonthStart\<close> is the day within the year on which a
  month begins.
\<close>

definition DayOfMonthStart :: "int \<Rightarrow> int \<Rightarrow> int" where
  "DayOfMonthStart mn L =
     (if mn = 0 then 0
      else if mn = 1 then 31
      else if mn = 2 then 59 + L
      else if mn = 3 then 90 + L
      else if mn = 4 then 120 + L
      else if mn = 5 then 151 + L
      else if mn = 6 then 181 + L
      else if mn = 7 then 212 + L
      else if mn = 8 then 243 + L
      else if mn = 9 then 273 + L
      else if mn = 10 then 304 + L
      else 334 + L)"

definition MakeDay :: "int \<Rightarrow> int \<Rightarrow> int \<Rightarrow> int" where
  "MakeDay year month date =
     (let ym = year + month div 12;
          mn = month mod 12;
          L = (if DaysInYear ym = 366 then 1 else 0)
      in DayFromYear ym + DayOfMonthStart mn L + date - 1)"

definition MakeDate :: "int \<Rightarrow> int \<Rightarrow> int" where
  "MakeDate day time = day * msPerDay + time"

text \<open>
  \<^verbatim>\<open>new Date(year, month, date, hours, minutes, seconds, ms)\<close>. The constructor reads
  a year from 0 to 99 as 1900 + year.
\<close>

definition new_Date :: "int \<Rightarrow> int \<Rightarrow> int \<Rightarrow> int \<Rightarrow> int \<Rightarrow> int \<Rightarrow> int \<Rightarrow> Date" where
  "new_Date year month date hours minutes seconds ms =
     (let yr = (if 0 \<le> year \<and> year \<le> 99 then 1900 + year else year)
      in MakeDate (MakeDay yr month date) (MakeTime hours minutes seconds ms))"

definition getFullYear :: "Date \<Rightarrow> int" where "getFullYear d = YearFromTime d"
definition getMonth :: "Date \<Rightarrow> int" where "getMonth d = MonthFromTime d"
definition getDate :: "Date \<Rightarrow> int" where "getDate d = DateFromTime d"
definition getHours :: "Date \<Rightarrow> int" where "getHours d = HourFromTime d"
definition getMinutes :: "Date \<Rightarrow> int" where "getMinutes d = MinFromTime d"
definition getSeconds :: "Date \<Rightarrow> int" where "getSeconds d = SecFromTime d"
definition getMilliseconds :: "Date \<Rightarrow> int" where "getMilliseconds d = msFromTime d"

text \<open>\<^verbatim>\<open>date.setHours(0, 0, 0, 0)\<close>: the start of the same (local) day.\<close>

definition setHours0 :: "Date \<Rightarrow> Date" where
  "setHours0 d = MakeDate (Day d) (MakeTime 0 0 0 0)"

subsection \<open>UsersService: daysInMonth and addOneMonth\<close>

text \<open>\<^verbatim>\<open>return new Date(year, month + 1, 0).getDate();\<close>\<close>

definition daysInMonth :: "int \<Rightarrow> int \<Rightarrow> int" where
  "daysInMonth year month = getDate (new_Date year (month + 1) 0 0 0 0 0)"

text \<open>
  \<^verbatim>\<open>Math.floor(newMonthIndex / 12)\<close> and \<^verbatim>\<open>newMonthIndex % 12\<close> are \<open>div\<close> and \<open>mod\<close>:
  \<open>newMonthIndex\<close> is never negative, since \<^verbatim>\<open>getMonth()\<close> is at least 0.
\<close>

definition addOneMonth :: "Date \<Rightarrow> Date" where
  "addOneMonth orig =
     (let year = getFullYear orig;
          month = getMonth orig;
          day = getDate orig;
          newMonthIndex = month + 1;
          newYear = year + newMonthIndex div 12;
          newMonth = newMonthIndex mod 12;
          newDay = min day (daysInMonth newYear newMonth)
      in new_Date newYear newMonth newDay
           (getHours orig) (getMinutes orig) (getSeconds orig) (getMilliseconds orig))"

text \<open>
  The calendar the claims speak of: the number of days of month \<open>m\<close> (0 is January) of
  year \<open>y\<close>, written as the usual table. It is not taken from the code; lemma
  \<open>daysInMonth_table\<close> relates the two.
\<close>

definition is_leap_year :: "int \<Rightarrow> bool" where
  "is_leap_year y \<longleftrightarrow> y mod 4 = 0 \<and> (y mod 100 \<noteq> 0 \<or> y mod 400 = 0)"

definition last_day_of_month :: "int \<Rightarrow> int \<Rightarrow> int" where
  "last_day_of_month y m =
     (if m = 1 then (if is_leap_year y then 29 else 28)
      else if m = 3 \<or> m = 5 \<or> m = 8 \<or> m = 10 then 30
      else 31)"

text \<open>The year the \<^verbatim>\<open>Date\<close> constructor uses for a given year argument.\<close>

definition ctor_year :: "int \<Rightarrow> int" where
  "ctor_year y = (if 0 \<le> y \<and> y \<le> 99 then 1900 + y else y)"

text \<open>The length of month \<open>m\<close> given the leap-year flag \<open>L\<close> (0 or 1).\<close>

definition month_len :: "int \<Rightarrow> int \<Rightarrow> int" where
  "month_len m L = (if m = 1 then 28 + L else if m = 3 \<or> m = 5 \<or> m = 8 \<or> m = 10 then 30 else 31)"

subsection \<open>Dates in the process-local time zone\<close>

text \<open>
  The accessors \<^verbatim>\<open>getFullYear\<close>, \<^verbatim>\<open>getHours\<close>, ... and the constructor
  \<^verbatim>\<open>new Date(year, month, ...)\<close> work in the local time zone of the process. A zone is
  given by the two readings of \<^verbatim>\<open>LocalTZA\<close> of ECMA-262: the offset in force at a UTC
  instant, and the offset the implementation takes for a local time value (inside a
  daylight-saving gap, the offset before the transition). \<^verbatim>\<open>TimeClip\<close> turns a time
  value beyond \<open>8.64 \<times> 10^15\<close> ms into \<^verbatim>\<open>NaN\<close>, the \<^verbatim>\<open>Invalid Date\<close>, modelled by
  \<open>None\<close>; an accessor of an \<^verbatim>\<open>Invalid Date\<close> returns \<^verbatim>\<open>NaN\<close>, and so does
  \<^verbatim>\<open>Math.min\<close> of a \<^verbatim>\<open>NaN\<close>.
\<close>

record zone =
  offset_at_utc :: "int \<Rightarrow> int"
  offset_at_local :: "int \<Rightarrow> int"

definition LocalTime :: "zone \<Rightarrow> int \<Rightarrow> int" where
  "LocalTime z t = t + offset_at_utc z t"

definition UTC :: "zone \<Rightarrow> int \<Rightarrow> int" where
  "UTC z t = t - offset_at_local z t"

definition TimeClip :: "int \<Rightarrow> Date option" where
  "TimeClip t = (if 8640000000000000 < \<bar>t\<bar> then None else Some t)"

definition new_Date_tz ::
  "zone \<Rightarrow> int \<Rightarrow> int \<Rightarrow> int \<Rightarrow> int \<Rightarrow> int \<Rightarrow> int \<Rightarrow> int \<Rightarrow> Date option" where
  "new_Date_tz z year month date hours minutes seconds ms =
     (let yr = (if 0 \<le> year \<and> year \<le> 99 then 1900 + year else year);
          finalDate = MakeDate (MakeDay yr month date) (MakeTime hours minutes seconds ms)
      in TimeClip (UTC z finalDate))"

definition getFullYear_tz :: "zone \<Rightarrow> Date \<Rightarrow> int" where
  "getFullYear_tz z d = YearFromTime (LocalTime z d)"
definition getMonth_tz :: "zone \<Rightarrow> Date \<Rightarrow> int" where
  "getMonth_tz z d = MonthFromTime (LocalTime z d)"
definition getDate_tz :: "zone \<Rightarrow> Date \<Rightarrow> int" where
  "getDate_tz z d = DateFromTime (LocalTime z d)"
definition getHours_tz :: "zone \<Rightarrow> Date \<Rightarrow> int" where
  "getHours_tz z d = HourFromTime (LocalTime z d)"
definition getMinutes_tz :: "zone \<Rightarrow> Date \<Rightarrow> int" where
  "getMinutes_tz z d = MinFromTime (LocalTime z d)"
definition getSeconds_tz :: "zone \<Rightarrow> Date \<Rightarrow> int" where
  "getSeconds_tz z d = SecFromTime (LocalTime z d)"
definition getMilliseconds_tz :: "zone \<Rightarrow> Date \<Rightarrow> int" where
  "getMilliseconds_tz z d = msFromTime (LocalTime z d)"

text \<open>\<^verbatim>\<open>return new Date(year, month + 1, 0).getDate();\<close>\<close>

definition daysInMonth_tz :: "zone \<Rightarrow> int \<Rightarrow> int \<Rightarrow> int option" where
  "daysInMonth_tz z year month =
     map_option (getDate_tz z) (new_Date_tz z year (month + 1) 0 0 0 0 0)"

definition addOneMonth_tz :: "zone \<Rightarrow> Date \<Rightarrow> Date option" where
  "addOneMonth_tz z orig =
     (let year = getFullYear_tz z orig;
          month = getMonth_tz z orig;
          day = getDate_tz z orig;
          newMonthIndex = month + 1;
          newYear = year + newMonthIndex div 12;
          newMonth = newMonthIndex mod 12
      in case daysInMonth_tz z newYear newMonth of
           None \<Rightarrow> None
         | Some lastDay \<Rightarrow>
             (let newDay = min day lastDay
              in new_Date_tz z newYear newMonth newDay
                   (getHours_tz z orig) (getMinutes_tz z orig) (getSeconds_tz z orig)
                   (getMilliseconds_tz z orig)))"

text \<open>
  Two zones: UTC, and a zone with the rules of New York in 2025 (UTC-5, and UTC-4 from
  9 March 2025 07:00 UTC to 2 November 2025 06:00 UTC; the local times from 02:00 to
  03:00 on 9 March do not exist).
\<close>

definition utc :: zone where
  "utc = \<lparr>offset_at_utc = (\<lambda>t. 0), offset_at_local = (\<lambda>t. 0)\<rparr>"

definition new_york_2025 :: zone where
  "new_york_2025 =
     \<lparr>offset_at_utc =
        (\<lambda>t. if 1741503600000 \<le> t \<and> t < 1762063200000 then - 14400000 else - 18000000),
      offset_at_local =
        (\<lambda>t. if 1741489200000 \<le> t \<and> t < 1762048800000 then - 14400000 else - 18000000)\<rparr>"

text \<open>
  The calendar the claim speaks of, on local time values: the month after the month of
  a local time, the local time one calendar month later (month incremented, year
  rolled after December, day clamped to the last day of that month, same time of day),
  and the midnight that begins the last day of the month after. A local time value is
  representable when it exists in the zone and its instant is in the range of
  \<^verbatim>\<open>Date\<close>.
\<close>

definition year_after :: "int \<Rightarrow> int" where
  "year_after L = (if MonthFromTime L = 11 then YearFromTime L + 1 else YearFromTime L)"

definition month_after :: "int \<Rightarrow> int" where
  "month_after L = (if MonthFromTime L = 11 then 0 else MonthFromTime L + 1)"

definition one_month_later :: "int \<Rightarrow> int" where
  "one_month_later L =
     MakeDate
       (MakeDay (year_after L) (month_after L)
          (min (DateFromTime L) (last_day_of_month (year_after L) (month_after L))))
       (TimeWithinDay L)"

definition last_day_midnight :: "int \<Rightarrow> int" where
  "last_day_midnight L =
     MakeDate
       (MakeDay (year_after L) (month_after L)
          (last_day_of_month (year_after L) (month_after L))) 0"

definition representable :: "zone \<Rightarrow> int \<Rightarrow> bool" where
  "representable z L \<longleftrightarrow> \<bar>UTC z L\<bar> \<le> 8640000000000000 \<and> LocalTime z (UTC z L) = L"


section \<open>Calendar arithmetic\<close>

lemma div_bounds:
  fixes x k :: int
  assumes "0 < k"
  shows "k * (x div k) \<le> x" and "x < k * (x div k) + k"
proof -
  have "x = k * (x div k) + x mod k" by simp
  moreover have "0 \<le> x mod k" "x mod k < k" using assms by simp_all
  ultimately show "k * (x div k) \<le> x" and "x < k * (x div k) + k" by linarith+
qed

lemma div_add1:
  fixes x k :: int
  assumes "0 < k"
  shows "(x + 1) div k = x div k + (if (x + 1) mod k = 0 then 1 else 0)"
proof -
  define q where "q = x div k"
  define r where "r = x mod k"
  have x: "x = k * q + r" and r: "0 \<le> r" "r < k"
    using assms by (simp_all add: q_def r_def)
  show ?thesis
  proof (cases "r + 1 = k")
    case True
    have e: "x + 1 = k * (q + 1) + 0" using x True by (simp add: algebra_simps)
    have "(x + 1) div k = q + 1" by (rule int_div_pos_eq [OF e]) (use assms in simp_all)
    moreover have "(x + 1) mod k = 0" by (rule int_mod_pos_eq [OF e]) (use assms in simp_all)
    ultimately show ?thesis by (simp add: q_def)
  next
    case False
    have e: "x + 1 = k * q + (r + 1)" using x by simp
    have lt: "r + 1 < k" using False r by linarith
    have "(x + 1) div k = q" by (rule int_div_pos_eq [OF e]) (use r lt in simp_all)
    moreover have "(x + 1) mod k = r + 1" by (rule int_mod_pos_eq [OF e]) (use r lt in simp_all)
    ultimately show ?thesis using r by (simp add: q_def)
  qed
qed

lemma mod_sub_mult:
  fixes y k c :: int
  shows "(y - k * c) mod k = y mod k"
proof -
  have "(y - k * c) mod k = (y + k * (- c)) mod k" by simp
  also have "\<dots> = y mod k" by (rule mod_mult_self2)
  finally show ?thesis .
qed

lemma mod4_shift: "((y::int) - 1968) mod 4 = 0 \<longleftrightarrow> y mod 4 = 0"
  using mod_sub_mult [of y 4 492] by simp

lemma mod100_shift: "((y::int) - 1900) mod 100 = 0 \<longleftrightarrow> y mod 100 = 0"
  using mod_sub_mult [of y 100 19] by simp

lemma mod400_shift: "((y::int) - 1600) mod 400 = 0 \<longleftrightarrow> y mod 400 = 0"
  using mod_sub_mult [of y 400 4] by simp

lemma mod100_imp_mod4: "(y::int) mod 100 = 0 \<Longrightarrow> y mod 4 = 0"
proof -
  assume "y mod 100 = 0"
  then have "100 dvd y" by (simp add: dvd_eq_mod_eq_0)
  moreover have "(4::int) dvd 100" by simp
  ultimately have "4 dvd y" by (rule dvd_trans [rotated])
  then show ?thesis by (simp add: dvd_eq_mod_eq_0)
qed

lemma mod400_imp_mod100: "(y::int) mod 400 = 0 \<Longrightarrow> y mod 100 = 0"
proof -
  assume "y mod 400 = 0"
  then have "400 dvd y" by (simp add: dvd_eq_mod_eq_0)
  moreover have "(100::int) dvd 400" by simp
  ultimately have "100 dvd y" by (rule dvd_trans [rotated])
  then show ?thesis by (simp add: dvd_eq_mod_eq_0)
qed

lemma DayFromYear_Suc: "DayFromYear (y + 1) = DayFromYear y + DaysInYear y"
proof -
  have a: "(y + 1 - 1969) div 4 = (y - 1969) div 4 + (if y mod 4 = 0 then 1 else 0)"
    using div_add1 [of 4 "y - 1969"] mod4_shift [of y] by (simp add: algebra_simps)
  have b: "(y + 1 - 1901) div 100 = (y - 1901) div 100 + (if y mod 100 = 0 then 1 else 0)"
    using div_add1 [of 100 "y - 1901"] mod100_shift [of y] by (simp add: algebra_simps)
  have c: "(y + 1 - 1601) div 400 = (y - 1601) div 400 + (if y mod 400 = 0 then 1 else 0)"
    using div_add1 [of 400 "y - 1601"] mod400_shift [of y] by (simp add: algebra_simps)
  show ?thesis
    unfolding DayFromYear_def DaysInYear_def a b c
    using mod100_imp_mod4 [of y] mod400_imp_mod100 [of y] by (simp add: algebra_simps)
qed

lemma DaysInYear_cases: "DaysInYear y = 365 \<or> DaysInYear y = 366"
  by (simp add: DaysInYear_def)

lemma DayFromYear_pred: "DayFromYear (y - 1) = DayFromYear y - DaysInYear (y - 1)"
  using DayFromYear_Suc [of "y - 1"] by simp

lemma DayFromYear_bounds:
  "146097 * (y - 1970) - 506 \<le> 400 * DayFromYear y"
  "400 * DayFromYear y \<le> 146097 * (y - 1970) + 589"
proof -
  define a where "a = (y - 1969) div 4"
  define b where "b = (y - 1901) div 100"
  define c where "c = (y - 1601) div 400"
  have A: "4 * a \<le> y - 1969" "y - 1969 < 4 * a + 4"
    unfolding a_def by (rule div_bounds, simp)+
  have B: "100 * b \<le> y - 1901" "y - 1901 < 100 * b + 100"
    unfolding b_def by (rule div_bounds, simp)+
  have C: "400 * c \<le> y - 1601" "y - 1601 < 400 * c + 400"
    unfolding c_def by (rule div_bounds, simp)+
  have F: "DayFromYear y = 365 * (y - 1970) + a - b + c"
    by (simp add: DayFromYear_def a_def b_def c_def)
  show "146097 * (y - 1970) - 506 \<le> 400 * DayFromYear y"
    using A B C unfolding F by (simp add: algebra_simps)
  show "400 * DayFromYear y \<le> 146097 * (y - 1970) + 589"
    using A B C unfolding F by (simp add: algebra_simps)
qed

lemma DayFromYear_mono: "y \<le> y' \<Longrightarrow> DayFromYear y \<le> DayFromYear y'"
proof (induction y' rule: int_ge_induct)
  case base
  show ?case by simp
next
  case (step i)
  have "DayFromYear (i + 1) = DayFromYear i + DaysInYear i" by (rule DayFromYear_Suc)
  with step DaysInYear_cases [of i] show ?case by linarith
qed

lemma DayFromYear_less_imp: "DayFromYear y < DayFromYear y' \<Longrightarrow> y < y'"
  using DayFromYear_mono [of y' y] by linarith

lemma YearFromDay_bounds:
  "DayFromYear (YearFromDay d) \<le> d" "d < DayFromYear (YearFromDay d + 1)"
proof -
  define y where "y = 1970 + (400 * d) div 146097"
  have E: "146097 * (y - 1970) \<le> 400 * d" "400 * d < 146097 * (y - 1970) + 146097"
    using div_bounds [of 146097 "400 * d"] by (simp_all add: y_def)
  have lo: "DayFromYear (y - 1) \<le> d"
  proof -
    have "400 * DayFromYear (y - 1) \<le> 146097 * (y - 1 - 1970) + 589"
      by (rule DayFromYear_bounds)
    with E show ?thesis by (simp add: algebra_simps)
  qed
  have hi: "d < DayFromYear (y + 2)"
  proof -
    have "146097 * (y + 2 - 1970) - 506 \<le> 400 * DayFromYear (y + 2)"
      by (rule DayFromYear_bounds)
    with E show ?thesis by (simp add: algebra_simps)
  qed
  have Y: "YearFromDay d = (if DayFromYear (y + 1) \<le> d then y + 1
         else if DayFromYear y \<le> d then y else y - 1)"
    by (simp add: YearFromDay_def y_def Let_def)
  have two: "y + 1 + 1 = y + 2" by simp
  show "DayFromYear (YearFromDay d) \<le> d"
    unfolding Y using lo by simp
  show "d < DayFromYear (YearFromDay d + 1)"
  proof (cases "DayFromYear (y + 1) \<le> d")
    case True
    then show ?thesis unfolding Y using hi by (simp add: two)
  next
    case False
    then show ?thesis unfolding Y by simp
  qed
qed

lemma YearFromDay_unique:
  assumes "DayFromYear y \<le> d" "d < DayFromYear (y + 1)"
  shows "YearFromDay d = y"
proof -
  have "DayFromYear (YearFromDay d) < DayFromYear (y + 1)"
    using YearFromDay_bounds(1) [of d] assms by linarith
  then have a: "YearFromDay d < y + 1" by (rule DayFromYear_less_imp)
  have "DayFromYear y < DayFromYear (YearFromDay d + 1)"
    using YearFromDay_bounds(2) [of d] assms by linarith
  then have b: "y < YearFromDay d + 1" by (rule DayFromYear_less_imp)
  from a b show ?thesis by linarith
qed

lemma YearFromDay_greatest:
  "DayFromYear (YearFromDay d) \<le> d \<and> (\<forall>y. DayFromYear y \<le> d \<longrightarrow> y \<le> YearFromDay d)"
proof (intro conjI allI impI)
  show "DayFromYear (YearFromDay d) \<le> d" by (rule YearFromDay_bounds)
next
  fix y assume "DayFromYear y \<le> d"
  then have "DayFromYear y < DayFromYear (YearFromDay d + 1)"
    using YearFromDay_bounds(2) [of d] by linarith
  then have "y < YearFromDay d + 1" by (rule DayFromYear_less_imp)
  then show "y \<le> YearFromDay d" by simp
qed


lemma DaysInYear_leap: "DaysInYear y = 366 \<longleftrightarrow> is_leap_year y"
  using mod100_imp_mod4 [of y] mod400_imp_mod100 [of y]
  by (auto simp: DaysInYear_def is_leap_year_def)

lemma DaysInYear_eq: "DaysInYear y = 365 + (if is_leap_year y then 1 else 0)"
  using DaysInYear_cases [of y] DaysInYear_leap [of y] by auto

lemma month_cases:
  fixes m :: int
  assumes "0 \<le> m" "m \<le> 11"
  shows "m = 0 \<or> m = 1 \<or> m = 2 \<or> m = 3 \<or> m = 4 \<or> m = 5 \<or> m = 6 \<or> m = 7
         \<or> m = 8 \<or> m = 9 \<or> m = 10 \<or> m = 11"
  using assms by arith

lemma Day_MakeDate:
  assumes "0 \<le> tod" "tod < msPerDay"
  shows "Day (MakeDate n tod) = n" and "TimeWithinDay (MakeDate n tod) = tod"
proof -
  have e: "MakeDate n tod = msPerDay * n + tod" by (simp add: MakeDate_def)
  show "Day (MakeDate n tod) = n"
    unfolding Day_def by (rule int_div_pos_eq [OF e]) (use assms in simp_all)
  show "TimeWithinDay (MakeDate n tod) = tod"
    unfolding TimeWithinDay_def by (rule int_mod_pos_eq [OF e]) (use assms in simp_all)
qed

lemma MakeDay_in_year:
  assumes "0 \<le> m" "m \<le> 11"
  shows "MakeDay y m dt =
           DayFromYear y + DayOfMonthStart m (if is_leap_year y then 1 else 0) + dt - 1"
proof -
  have "m div 12 = 0" "m mod 12 = m" using assms by simp_all
  then show ?thesis by (simp add: MakeDay_def Let_def DaysInYear_leap)
qed

lemma month_span:
  assumes "0 \<le> m" "m \<le> 11" "L = 0 \<or> L = 1"
  shows "0 \<le> DayOfMonthStart m L"
    and "DayOfMonthStart m L + (if m = 1 then 28 + L else if m = 3 \<or> m = 5 \<or> m = 8 \<or> m = 10 then 30 else 31)
           = (if m = 11 then 365 + L else DayOfMonthStart (m + 1) L)"
  using month_cases [OF assms(1,2)] assms(3) by (auto simp: DayOfMonthStart_def)

lemma month_chain:
  fixes k L m :: int
  assumes m: "0 \<le> m" "m \<le> 11" and L: "0 \<le> L" "L \<le> 1"
    and lo: "DayOfMonthStart m L \<le> k" and hi: "k < DayOfMonthStart m L + month_len m L"
  shows "(if k < 31 then 0
         else if k < 59 + L then 1
         else if k < 90 + L then 2
         else if k < 120 + L then 3
         else if k < 151 + L then 4
         else if k < 181 + L then 5
         else if k < 212 + L then 6
         else if k < 243 + L then 7
         else if k < 273 + L then 8
         else if k < 304 + L then 9
         else if k < 334 + L then 10
         else 11) = m"
  using month_cases [OF m]
proof (elim disjE)
  assume "m = 0" then show ?thesis using L lo hi by (simp add: DayOfMonthStart_def month_len_def)
next
  assume "m = 1" then show ?thesis using L lo hi by (simp add: DayOfMonthStart_def month_len_def)
next
  assume "m = 2" then show ?thesis using L lo hi by (simp add: DayOfMonthStart_def month_len_def)
next
  assume "m = 3" then show ?thesis using L lo hi by (simp add: DayOfMonthStart_def month_len_def)
next
  assume "m = 4" then show ?thesis using L lo hi by (simp add: DayOfMonthStart_def month_len_def)
next
  assume "m = 5" then show ?thesis using L lo hi by (simp add: DayOfMonthStart_def month_len_def)
next
  assume "m = 6" then show ?thesis using L lo hi by (simp add: DayOfMonthStart_def month_len_def)
next
  assume "m = 7" then show ?thesis using L lo hi by (simp add: DayOfMonthStart_def month_len_def)
next
  assume "m = 8" then show ?thesis using L lo hi by (simp add: DayOfMonthStart_def month_len_def)
next
  assume "m = 9" then show ?thesis using L lo hi by (simp add: DayOfMonthStart_def month_len_def)
next
  assume "m = 10" then show ?thesis using L lo hi by (simp add: DayOfMonthStart_def month_len_def)
next
  assume "m = 11" then show ?thesis using L lo hi by (simp add: DayOfMonthStart_def month_len_def)
qed


lemma date_chain:
  fixes d L m :: int
  assumes m: "0 \<le> m" "m \<le> 11"
  shows "(if m = 0 then d + 1
         else if m = 1 then d - 30
         else if m = 2 then d - 58 - L
         else if m = 3 then d - 89 - L
         else if m = 4 then d - 119 - L
         else if m = 5 then d - 150 - L
         else if m = 6 then d - 180 - L
         else if m = 7 then d - 211 - L
         else if m = 8 then d - 242 - L
         else if m = 9 then d - 272 - L
         else if m = 10 then d - 303 - L
         else d - 333 - L) = d + 1 - DayOfMonthStart m L"
  using month_cases [OF m]
proof (elim disjE)
  assume "m = 0" then show ?thesis by (simp add: DayOfMonthStart_def)
next
  assume "m = 1" then show ?thesis by (simp add: DayOfMonthStart_def)
next
  assume "m = 2" then show ?thesis by (simp add: DayOfMonthStart_def)
next
  assume "m = 3" then show ?thesis by (simp add: DayOfMonthStart_def)
next
  assume "m = 4" then show ?thesis by (simp add: DayOfMonthStart_def)
next
  assume "m = 5" then show ?thesis by (simp add: DayOfMonthStart_def)
next
  assume "m = 6" then show ?thesis by (simp add: DayOfMonthStart_def)
next
  assume "m = 7" then show ?thesis by (simp add: DayOfMonthStart_def)
next
  assume "m = 8" then show ?thesis by (simp add: DayOfMonthStart_def)
next
  assume "m = 9" then show ?thesis by (simp add: DayOfMonthStart_def)
next
  assume "m = 10" then show ?thesis by (simp add: DayOfMonthStart_def)
next
  assume "m = 11" then show ?thesis by (simp add: DayOfMonthStart_def)
qed

lemma month_chain_range:
  fixes k L :: int
  assumes k: "0 \<le> k" "k < 365 + L" and L: "0 \<le> L" "L \<le> 1"
  defines "m \<equiv> (if k < 31 then 0
         else if k < 59 + L then 1
         else if k < 90 + L then 2
         else if k < 120 + L then 3
         else if k < 151 + L then 4
         else if k < 181 + L then 5
         else if k < 212 + L then 6
         else if k < 243 + L then 7
         else if k < 273 + L then 8
         else if k < 304 + L then 9
         else if k < 334 + L then 10
         else (11::int))"
  shows "0 \<le> m" and "m \<le> 11" and "DayOfMonthStart m L \<le> k"
    and "k < DayOfMonthStart m L + month_len m L"
  using k L by (simp_all add: m_def DayOfMonthStart_def month_len_def)

lemma month_start_bounds:
  fixes m L :: int
  assumes m: "0 \<le> m" "m \<le> 11" and L: "0 \<le> L" "L \<le> 1"
  shows "0 \<le> DayOfMonthStart m L" and "DayOfMonthStart m L + month_len m L \<le> 365 + L"
    and "1 \<le> month_len m L"
  using L by (simp_all add: DayOfMonthStart_def month_len_def)

lemma last_day_month_len:
  "last_day_of_month y m = month_len m (if is_leap_year y then 1 else 0)"
  by (simp add: last_day_of_month_def month_len_def)

lemma fields_of_day:
  assumes m: "0 \<le> m" "m \<le> 11"
    and dt: "1 \<le> dt" "dt \<le> last_day_of_month y m"
    and day: "Day t = MakeDay y m dt"
  shows "YearFromTime t = y" and "MonthFromTime t = m" and "DateFromTime t = dt"
proof -
  define L :: int where "L = (if is_leap_year y then 1 else 0)"
  define k where "k = DayOfMonthStart m L + dt - 1"
  have L: "0 \<le> L" "L \<le> 1" by (simp_all add: L_def)
  have len: "last_day_of_month y m = month_len m L"
    by (simp add: last_day_month_len L_def)
  have D: "Day t = DayFromYear y + k"
    using day MakeDay_in_year [OF m, of y dt] by (simp add: k_def L_def)
  have k0: "0 \<le> k" using month_start_bounds(1) [OF m L] dt by (simp add: k_def)
  have k1: "k < 365 + L"
    using month_start_bounds(2) [OF m L] dt len by (simp add: k_def)
  have diy: "DaysInYear y = 365 + L" by (simp add: DaysInYear_eq L_def)
  show Y: "YearFromTime t = y"
    unfolding YearFromTime_def
    by (rule YearFromDay_unique) (use D k0 k1 diy DayFromYear_Suc [of y] in simp_all)
  have dwy: "DayWithinYear t = k" by (simp add: DayWithinYear_def Y D)
  have leap: "InLeapYear t = L" by (simp add: InLeapYear_def Y DaysInYear_leap L_def)
  have lo: "DayOfMonthStart m L \<le> k" using dt by (simp add: k_def)
  have hi: "k < DayOfMonthStart m L + month_len m L" using dt len by (simp add: k_def)
  show M: "MonthFromTime t = m"
    unfolding MonthFromTime_def dwy leap Let_def
    by (rule month_chain [OF m L lo hi])
  show "DateFromTime t = dt"
    unfolding DateFromTime_def M dwy leap Let_def date_chain [OF m]
    by (simp add: k_def)
qed

lemma day_of_fields:
  fixes t :: int
  defines "y \<equiv> YearFromTime t" and "m \<equiv> MonthFromTime t" and "dt \<equiv> DateFromTime t"
  shows "0 \<le> m" and "m \<le> 11" and "1 \<le> dt" and "dt \<le> last_day_of_month y m"
    and "Day t = MakeDay y m dt"
proof -
  define L :: int where "L = (if is_leap_year y then 1 else 0)"
  define k where "k = DayWithinYear t"
  have L: "0 \<le> L" "L \<le> 1" by (simp_all add: L_def)
  have leap: "InLeapYear t = L" by (simp add: InLeapYear_def y_def DaysInYear_leap L_def)
  have diy: "DaysInYear y = 365 + L" by (simp add: DaysInYear_eq L_def)
  have k0: "0 \<le> k"
    using YearFromDay_bounds(1) [of "Day t"] by (simp add: k_def DayWithinYear_def YearFromTime_def)
  have k1: "k < 365 + L"
    using YearFromDay_bounds(2) [of "Day t"] DayFromYear_Suc [of y] diy
    by (simp add: k_def DayWithinYear_def YearFromTime_def y_def)
  have Mdef: "m = (if k < 31 then 0
         else if k < 59 + L then 1
         else if k < 90 + L then 2
         else if k < 120 + L then 3
         else if k < 151 + L then 4
         else if k < 181 + L then 5
         else if k < 212 + L then 6
         else if k < 243 + L then 7
         else if k < 273 + L then 8
         else if k < 304 + L then 9
         else if k < 334 + L then 10
         else 11)"
    by (simp add: m_def MonthFromTime_def k_def leap Let_def)
  show m0: "0 \<le> m" and m1: "m \<le> 11"
    unfolding Mdef by (rule month_chain_range [OF k0 k1 L])+
  have lo: "DayOfMonthStart m L \<le> k"
    unfolding Mdef by (rule month_chain_range [OF k0 k1 L])
  have hi: "k < DayOfMonthStart m L + month_len m L"
    unfolding Mdef by (rule month_chain_range [OF k0 k1 L])
  have Ddef: "dt = k + 1 - DayOfMonthStart m L"
    unfolding dt_def DateFromTime_def Let_def m_def [symmetric] k_def [symmetric] leap
    by (rule date_chain [OF m0 m1])
  show "1 \<le> dt" using lo by (simp add: Ddef)
  show "dt \<le> last_day_of_month y m"
    using hi by (simp add: Ddef last_day_month_len L_def)
  show "Day t = MakeDay y m dt"
    unfolding MakeDay_in_year [OF m0 m1] Ddef
    by (simp add: k_def DayWithinYear_def y_def L_def)
qed

lemma TimeWithinDay_range: "0 \<le> TimeWithinDay t" "TimeWithinDay t < msPerDay"
  by (simp_all add: TimeWithinDay_def msPerDay_def)

lemma MakeDate_Day: "MakeDate (Day t) (TimeWithinDay t) = t"
  by (simp add: MakeDate_def Day_def TimeWithinDay_def)

lemma MakeTime_fields:
  "MakeTime (HourFromTime t) (MinFromTime t) (SecFromTime t) (msFromTime t) = TimeWithinDay t"
proof -
  define h where "h = t div 3600000 mod 24"
  define mi where "mi = t div 60000 mod 60"
  define s where "s = t div 1000 mod 60"
  define ms where "ms = t mod 1000"
  define r1 where "r1 = t mod 60000"
  define r2 where "r2 = t mod 3600000"
  define r3 where "r3 = t mod 86400000"
  have "t mod (1000 * 60) = 1000 * (t div 1000 mod 60) + t mod 1000"
    by (rule zmod_zmult2_eq) simp
  then have a: "r1 = 1000 * s + ms"
    unfolding r1_def s_def ms_def by simp
  have "t mod (60000 * 60) = 60000 * (t div 60000 mod 60) + t mod 60000"
    by (rule zmod_zmult2_eq) simp
  then have b: "r2 = 60000 * mi + r1"
    unfolding r1_def r2_def mi_def by simp
  have "t mod (3600000 * 24) = 3600000 * (t div 3600000 mod 24) + t mod 3600000"
    by (rule zmod_zmult2_eq) simp
  then have c: "r3 = 3600000 * h + r2"
    unfolding r3_def r2_def h_def by simp
  have "h * 3600000 + mi * 60000 + s * 1000 + ms = r3"
    using a b c by linarith
  then show ?thesis
    unfolding MakeTime_def HourFromTime_def MinFromTime_def SecFromTime_def msFromTime_def
      TimeWithinDay_def msPerDay_def msPerHour_def msPerMinute_def msPerSecond_def
      h_def mi_def s_def ms_def r3_def .
qed

lemma div_mod_shift:
  fixes x a b k :: int
  assumes "a \<noteq> 0"
  shows "(x + a * (b * k)) div a mod b = x div a mod b"
proof -
  have "(x + a * (b * k)) div a = b * k + x div a"
    using assms by (rule div_mult_self2)
  then show ?thesis by simp
qed

lemma fields_of_time:
  "HourFromTime (MakeDate n tod) = HourFromTime tod"
  "MinFromTime (MakeDate n tod) = MinFromTime tod"
  "SecFromTime (MakeDate n tod) = SecFromTime tod"
  "msFromTime (MakeDate n tod) = msFromTime tod"
proof -
  have h: "MakeDate n tod = tod + 3600000 * (24 * n)" by (simp add: MakeDate_def msPerDay_def)
  have mi: "MakeDate n tod = tod + 60000 * (60 * (24 * n))" by (simp add: MakeDate_def msPerDay_def)
  have s: "MakeDate n tod = tod + 1000 * (60 * (1440 * n))" by (simp add: MakeDate_def msPerDay_def)
  have ms: "MakeDate n tod = tod + 1000 * (86400 * n)" by (simp add: MakeDate_def msPerDay_def)
  show "HourFromTime (MakeDate n tod) = HourFromTime tod"
    unfolding HourFromTime_def msPerHour_def h by (rule div_mod_shift) simp
  show "MinFromTime (MakeDate n tod) = MinFromTime tod"
    unfolding MinFromTime_def msPerMinute_def mi by (rule div_mod_shift) simp
  show "SecFromTime (MakeDate n tod) = SecFromTime tod"
    unfolding SecFromTime_def msPerSecond_def s by (rule div_mod_shift) simp
  show "msFromTime (MakeDate n tod) = msFromTime tod"
    unfolding msFromTime_def msPerSecond_def ms by (rule mod_mult_self2)
qed

lemma time_fields_within_day:
  "HourFromTime (TimeWithinDay t) = HourFromTime t"
  "MinFromTime (TimeWithinDay t) = MinFromTime t"
  "SecFromTime (TimeWithinDay t) = SecFromTime t"
  "msFromTime (TimeWithinDay t) = msFromTime t"
  using fields_of_time [of "Day t" "TimeWithinDay t"] by (simp_all add: MakeDate_Day)

lemma MakeDay_next_month:
  assumes m: "0 \<le> m" "m \<le> 11"
  shows "MakeDay y (m + 1) 0 = MakeDay y m (last_day_of_month y m)"
proof (cases "m = 11")
  case True
  have "MakeDay y 12 0 = DayFromYear (y + 1) - 1"
    by (simp add: MakeDay_def Let_def DayOfMonthStart_def)
  also have "\<dots> = DayFromYear y + DaysInYear y - 1" by (simp add: DayFromYear_Suc)
  also have "\<dots> = MakeDay y 11 (last_day_of_month y 11)"
    by (simp add: MakeDay_in_year DaysInYear_eq DayOfMonthStart_def last_day_of_month_def)
  finally show ?thesis using True by simp
next
  case False
  define L :: int where "L = (if is_leap_year y then 1 else 0)"
  have m1: "0 \<le> m + 1" "m + 1 \<le> 11" using m False by simp_all
  have L: "0 \<le> L" "L \<le> 1" by (simp_all add: L_def)
  have "DayOfMonthStart (m + 1) L = DayOfMonthStart m L + month_len m L"
    using month_cases [OF m] False
    by (elim disjE) (simp_all add: DayOfMonthStart_def month_len_def)
  then show ?thesis
    unfolding MakeDay_in_year [OF m1] MakeDay_in_year [OF m] last_day_month_len L_def
    by simp
qed

lemma last_day_pos: "1 \<le> last_day_of_month y m"
  by (simp add: last_day_of_month_def)

lemma daysInMonth_table:
  assumes m: "0 \<le> m" "m \<le> 11"
  shows "daysInMonth y m = last_day_of_month (ctor_year y) m"
proof -
  define yr where "yr = ctor_year y"
  have t0: "MakeTime 0 0 0 0 = 0" by (simp add: MakeTime_def)
  have "Day (MakeDate (MakeDay yr (m + 1) 0) 0) = MakeDay yr (m + 1) 0"
    by (rule Day_MakeDate) (simp_all add: msPerDay_def)
  then have d: "Day (MakeDate (MakeDay yr (m + 1) 0) 0) = MakeDay yr m (last_day_of_month yr m)"
    by (simp add: MakeDay_next_month [OF m])
  have "DateFromTime (MakeDate (MakeDay yr (m + 1) 0) 0) = last_day_of_month yr m"
    by (rule fields_of_day(3) [OF m last_day_pos _ d]) simp
  then show ?thesis
    by (simp add: daysInMonth_def getDate_def new_Date_def t0 yr_def ctor_year_def Let_def)
qed


lemma next_month_range:
  fixes m :: int
  assumes "0 \<le> m" "m \<le> 11"
  shows "0 \<le> (m + 1) mod 12" and "(m + 1) mod 12 \<le> 11"
    and "(m + 1) div 12 = (if m = 11 then 1 else 0)"
    and "(m + 1) mod 12 = (if m = 11 then 0 else m + 1)"
  using assms by (simp_all add: div_pos_pos_trivial)

lemma addOneMonth_eq:
  fixes orig :: Date
  defines "ny \<equiv> getFullYear orig + (getMonth orig + 1) div 12"
    and "nm \<equiv> (getMonth orig + 1) mod 12"
  defines "nd \<equiv> min (getDate orig) (last_day_of_month (ctor_year ny) nm)"
  shows "addOneMonth orig = MakeDate (MakeDay (ctor_year ny) nm nd) (TimeWithinDay orig)"
proof -
  have m: "0 \<le> getMonth orig" "getMonth orig \<le> 11"
    unfolding getMonth_def by (rule day_of_fields)+
  have nm: "0 \<le> nm" "nm \<le> 11" unfolding nm_def by (rule next_month_range [OF m])+
  have dim: "daysInMonth ny nm = last_day_of_month (ctor_year ny) nm"
    by (rule daysInMonth_table [OF nm])
  have tod: "MakeTime (getHours orig) (getMinutes orig) (getSeconds orig) (getMilliseconds orig)
      = TimeWithinDay orig"
    unfolding getHours_def getMinutes_def getSeconds_def getMilliseconds_def
    by (rule MakeTime_fields)
  have "addOneMonth orig = new_Date ny nm (min (getDate orig) (daysInMonth ny nm))
      (getHours orig) (getMinutes orig) (getSeconds orig) (getMilliseconds orig)"
    unfolding addOneMonth_def Let_def ny_def nm_def ..
  also have "\<dots> = MakeDate (MakeDay (ctor_year ny) nm nd) (TimeWithinDay orig)"
    unfolding new_Date_def Let_def tod dim nd_def ctor_year_def ..
  finally show ?thesis .
qed

lemma addOneMonth_fields:
  fixes orig :: Date
  defines "ny \<equiv> getFullYear orig + (getMonth orig + 1) div 12"
    and "nm \<equiv> (getMonth orig + 1) mod 12"
  defines "nd \<equiv> min (getDate orig) (last_day_of_month (ctor_year ny) nm)"
  shows "getFullYear (addOneMonth orig) = ctor_year ny"
    and "getMonth (addOneMonth orig) = nm"
    and "getDate (addOneMonth orig) = nd"
    and "getHours (addOneMonth orig) = getHours orig"
    and "getMinutes (addOneMonth orig) = getMinutes orig"
    and "getSeconds (addOneMonth orig) = getSeconds orig"
    and "getMilliseconds (addOneMonth orig) = getMilliseconds orig"
proof -
  define r where "r = MakeDate (MakeDay (ctor_year ny) nm nd) (TimeWithinDay orig)"
  have eq: "addOneMonth orig = r"
    unfolding r_def ny_def nm_def nd_def by (rule addOneMonth_eq)
  have m: "0 \<le> getMonth orig" "getMonth orig \<le> 11"
    unfolding getMonth_def by (rule day_of_fields)+
  have nm: "0 \<le> nm" "nm \<le> 11" unfolding nm_def by (rule next_month_range [OF m])+
  have d1: "1 \<le> getDate orig" unfolding getDate_def by (rule day_of_fields)
  have nd: "1 \<le> nd" "nd \<le> last_day_of_month (ctor_year ny) nm"
    using d1 last_day_pos [of "ctor_year ny" nm] by (simp_all add: nd_def)
  have day: "Day r = MakeDay (ctor_year ny) nm nd"
    unfolding r_def by (rule Day_MakeDate [OF TimeWithinDay_range])
  show "getFullYear (addOneMonth orig) = ctor_year ny"
    unfolding eq getFullYear_def by (rule fields_of_day [OF nm nd day])
  show "getMonth (addOneMonth orig) = nm"
    unfolding eq getMonth_def by (rule fields_of_day [OF nm nd day])
  show "getDate (addOneMonth orig) = nd"
    unfolding eq getDate_def by (rule fields_of_day [OF nm nd day])
  show "getHours (addOneMonth orig) = getHours orig"
    unfolding eq getHours_def r_def fields_of_time by (rule time_fields_within_day)
  show "getMinutes (addOneMonth orig) = getMinutes orig"
    unfolding eq getMinutes_def r_def fields_of_time by (rule time_fields_within_day)
  show "getSeconds (addOneMonth orig) = getSeconds orig"
    unfolding eq getSeconds_def r_def fields_of_time by (rule time_fields_within_day)
  show "getMilliseconds (addOneMonth orig) = getMilliseconds orig"
    unfolding eq getMilliseconds_def r_def fields_of_time by (rule time_fields_within_day)
qed

lemma ctor_year_ge: "y \<le> ctor_year y"
  by (simp add: ctor_year_def)

lemma MakeDay_year_mono:
  assumes m: "0 \<le> m" "m \<le> 11" and y: "y \<le> y'"
  shows "MakeDay y m 1 \<le> MakeDay y' m 1"
proof (cases "y = y'")
  case True then show ?thesis by simp
next
  case False
  then have "y + 1 \<le> y'" using y by simp
  then have "DayFromYear (y + 1) \<le> DayFromYear y'" by (rule DayFromYear_mono)
  then have a: "DayFromYear y + 365 \<le> DayFromYear y'"
    using DayFromYear_Suc [of y] DaysInYear_cases [of y] by linarith
  define L :: int where "L = (if is_leap_year y then 1 else 0)"
  define L' :: int where "L' = (if is_leap_year y' then 1 else 0)"
  have L: "0 \<le> L" "L \<le> 1" "0 \<le> L'" "L' \<le> 1" by (simp_all add: L_def L'_def)
  have b: "DayOfMonthStart m L \<le> DayOfMonthStart m L' + 1"
    using L by (simp add: DayOfMonthStart_def)
  show ?thesis
    unfolding MakeDay_in_year [OF m] using a b by (simp add: L_def L'_def)
qed

lemma addOneMonth_later: "orig < addOneMonth orig"
proof -
  define y where "y = getFullYear orig"
  define m where "m = getMonth orig"
  define d where "d = getDate orig"
  define ny where "ny = y + (m + 1) div 12"
  define nm where "nm = (m + 1) mod 12"
  define nd where "nd = min d (last_day_of_month (ctor_year ny) nm)"
  have m: "0 \<le> m" "m \<le> 11" unfolding m_def getMonth_def by (rule day_of_fields)+
  have d: "1 \<le> d" "d \<le> last_day_of_month y m"
    unfolding d_def y_def m_def getDate_def getFullYear_def getMonth_def by (rule day_of_fields)+
  have day: "Day orig = MakeDay y m d"
    unfolding d_def y_def m_def getDate_def getFullYear_def getMonth_def by (rule day_of_fields)
  have nm: "0 \<le> nm" "nm \<le> 11" unfolding nm_def by (rule next_month_range [OF m])+
  have nd: "1 \<le> nd" using d last_day_pos [of "ctor_year ny" nm] by (simp add: nd_def)
  have eq: "addOneMonth orig = MakeDate (MakeDay (ctor_year ny) nm nd) (TimeWithinDay orig)"
    unfolding ny_def nm_def nd_def y_def m_def d_def by (rule addOneMonth_eq)
  have first: "MakeDay ny nm 1 = MakeDay y m (last_day_of_month y m) + 1"
  proof -
    have "MakeDay y (m + 1) 0 = MakeDay ny nm 0"
      by (simp add: MakeDay_def Let_def ny_def nm_def)
    then have "MakeDay ny nm 0 = MakeDay y m (last_day_of_month y m)"
      using MakeDay_next_month [OF m, of y] by simp
    moreover have "MakeDay ny nm 1 = MakeDay ny nm 0 + 1" by (simp add: MakeDay_def Let_def)
    ultimately show ?thesis by simp
  qed
  have "MakeDay y m d \<le> MakeDay y m (last_day_of_month y m)"
    using d by (simp add: MakeDay_def Let_def)
  also have "\<dots> < MakeDay ny nm 1" using first by simp
  also have "\<dots> \<le> MakeDay (ctor_year ny) nm 1"
    by (rule MakeDay_year_mono [OF nm ctor_year_ge])
  also have "\<dots> \<le> MakeDay (ctor_year ny) nm nd"
    using nd by (simp add: MakeDay_def Let_def)
  finally have lt: "Day orig + 1 \<le> MakeDay (ctor_year ny) nm nd" using day by simp
  have "orig = MakeDate (Day orig) (TimeWithinDay orig)" by (simp add: MakeDate_Day)
  also have "\<dots> < MakeDate (MakeDay (ctor_year ny) nm nd) (TimeWithinDay orig)"
  proof -
    have "Day orig * msPerDay < MakeDay (ctor_year ny) nm nd * msPerDay"
      using lt by (simp add: msPerDay_def)
    then show ?thesis by (simp add: MakeDate_def)
  qed
  finally show ?thesis using eq by simp
qed


subsection \<open>addOneMonth in a time zone\<close>

lemma TimeClip_in_range: "\<bar>t\<bar> \<le> 8640000000000000 \<Longrightarrow> TimeClip t = Some t"
  by (simp add: TimeClip_def)

lemma new_Date_tz_representable:
  assumes y: "year < 0 \<or> 99 < year"
    and r: "representable z (MakeDate (MakeDay year month date) tod)"
    and t: "MakeTime hours minutes seconds ms = tod"
  shows "new_Date_tz z year month date hours minutes seconds ms
           = Some (UTC z (MakeDate (MakeDay year month date) tod))"
    and "LocalTime z (UTC z (MakeDate (MakeDay year month date) tod))
           = MakeDate (MakeDay year month date) tod"
proof -
  have yr: "(if 0 \<le> year \<and> year \<le> 99 then 1900 + year else year) = year"
    using y by auto
  show "new_Date_tz z year month date hours minutes seconds ms
           = Some (UTC z (MakeDate (MakeDay year month date) tod))"
    unfolding new_Date_tz_def Let_def yr t
    by (rule TimeClip_in_range) (use r in \<open>simp add: representable_def\<close>)
  show "LocalTime z (UTC z (MakeDate (MakeDay year month date) tod))
           = MakeDate (MakeDay year month date) tod"
    using r by (simp add: representable_def)
qed

lemma addOneMonth_tz_eq:
  fixes orig :: Date and z :: zone
  defines "L \<equiv> LocalTime z orig"
  assumes y: "100 \<le> getFullYear_tz z orig"
    and probe: "representable z (last_day_midnight L)"
    and target: "representable z (one_month_later L)"
  shows "addOneMonth_tz z orig = Some (UTC z (one_month_later L))"
    and "LocalTime z (UTC z (one_month_later L)) = one_month_later L"
proof -
  define ny where "ny = year_after L"
  define nm where "nm = month_after L"
  define nd where "nd = min (DateFromTime L) (last_day_of_month ny nm)"
  have m: "0 \<le> MonthFromTime L" "MonthFromTime L \<le> 11" by (rule day_of_fields)+
  have ny: "getFullYear_tz z orig + (getMonth_tz z orig + 1) div 12 = ny"
    unfolding getFullYear_tz_def getMonth_tz_def L_def [symmetric] next_month_range(3) [OF m]
    by (simp add: ny_def year_after_def)
  have nm: "(getMonth_tz z orig + 1) mod 12 = nm"
    unfolding getMonth_tz_def L_def [symmetric] next_month_range(4) [OF m]
    by (simp add: nm_def month_after_def)
  have nmr: "0 \<le> nm" "nm \<le> 11"
    using m by (simp_all add: nm_def month_after_def)
  have ny100: "ny < 0 \<or> 99 < ny"
    using y by (simp add: ny_def year_after_def getFullYear_tz_def L_def)
  have t0: "MakeTime 0 0 0 0 = 0" by (simp add: MakeTime_def)
  have pl: "last_day_midnight L = MakeDate (MakeDay ny (nm + 1) 0) 0"
    unfolding last_day_midnight_def ny_def [symmetric] nm_def [symmetric]
    by (simp add: MakeDay_next_month [OF nmr])
  have pr: "representable z (MakeDate (MakeDay ny (nm + 1) 0) 0)"
    using probe by (simp add: pl)
  have pd: "Day (MakeDate (MakeDay ny (nm + 1) 0) 0) = MakeDay ny nm (last_day_of_month ny nm)"
    unfolding MakeDay_next_month [OF nmr, symmetric]
    by (rule Day_MakeDate) (simp_all add: msPerDay_def)
  have pdate: "DateFromTime (MakeDate (MakeDay ny (nm + 1) 0) 0) = last_day_of_month ny nm"
    by (rule fields_of_day(3) [OF nmr last_day_pos _ pd]) simp
  have dim: "daysInMonth_tz z ny nm = Some (last_day_of_month ny nm)"
    unfolding daysInMonth_tz_def new_Date_tz_representable(1) [OF ny100 pr t0]
    by (simp add: getDate_tz_def new_Date_tz_representable(2) [OF ny100 pr t0] pdate)
  have tod: "MakeTime (getHours_tz z orig) (getMinutes_tz z orig) (getSeconds_tz z orig)
      (getMilliseconds_tz z orig) = TimeWithinDay L"
    unfolding getHours_tz_def getMinutes_tz_def getSeconds_tz_def getMilliseconds_tz_def L_def
    by (rule MakeTime_fields)
  have tl: "one_month_later L = MakeDate (MakeDay ny nm nd) (TimeWithinDay L)"
    by (simp add: one_month_later_def ny_def nm_def nd_def)
  have tr: "representable z (MakeDate (MakeDay ny nm nd) (TimeWithinDay L))"
    using target by (simp add: tl)
  have "addOneMonth_tz z orig
      = new_Date_tz z ny nm (min (getDate_tz z orig) (last_day_of_month ny nm))
          (getHours_tz z orig) (getMinutes_tz z orig) (getSeconds_tz z orig)
          (getMilliseconds_tz z orig)"
    unfolding addOneMonth_tz_def Let_def ny nm dim by simp
  also have "\<dots> = Some (UTC z (MakeDate (MakeDay ny nm nd) (TimeWithinDay L)))"
    unfolding getDate_tz_def L_def [symmetric] nd_def [symmetric]
    by (rule new_Date_tz_representable(1) [OF ny100 tr tod])
  finally show "addOneMonth_tz z orig = Some (UTC z (one_month_later L))"
    by (simp add: tl)
  show "LocalTime z (UTC z (one_month_later L)) = one_month_later L"
    using target by (simp add: representable_def)
qed

lemma one_month_later_fields:
  shows "YearFromTime (one_month_later L) = year_after L"
    and "MonthFromTime (one_month_later L) = month_after L"
    and "DateFromTime (one_month_later L)
           = min (DateFromTime L) (last_day_of_month (year_after L) (month_after L))"
    and "HourFromTime (one_month_later L) = HourFromTime L"
    and "MinFromTime (one_month_later L) = MinFromTime L"
    and "SecFromTime (one_month_later L) = SecFromTime L"
    and "msFromTime (one_month_later L) = msFromTime L"
proof -
  define ny where "ny = year_after L"
  define nm where "nm = month_after L"
  define nd where "nd = min (DateFromTime L) (last_day_of_month ny nm)"
  have m: "0 \<le> MonthFromTime L" "MonthFromTime L \<le> 11" by (rule day_of_fields)+
  have nmr: "0 \<le> nm" "nm \<le> 11"
    using m by (simp_all add: nm_def month_after_def)
  have d1: "1 \<le> DateFromTime L" by (rule day_of_fields)
  have nd: "1 \<le> nd" "nd \<le> last_day_of_month ny nm"
    using d1 last_day_pos [of ny nm] by (simp_all add: nd_def)
  have tl: "one_month_later L = MakeDate (MakeDay ny nm nd) (TimeWithinDay L)"
    by (simp add: one_month_later_def ny_def nm_def nd_def)
  have day: "Day (one_month_later L) = MakeDay ny nm nd"
    unfolding tl by (rule Day_MakeDate [OF TimeWithinDay_range])
  show "YearFromTime (one_month_later L) = year_after L"
    unfolding ny_def [symmetric] by (rule fields_of_day [OF nmr nd day])
  show "MonthFromTime (one_month_later L) = month_after L"
    unfolding nm_def [symmetric] by (rule fields_of_day [OF nmr nd day])
  show "DateFromTime (one_month_later L)
           = min (DateFromTime L) (last_day_of_month (year_after L) (month_after L))"
    unfolding ny_def [symmetric] nm_def [symmetric] nd_def [symmetric]
    by (rule fields_of_day [OF nmr nd day])
  show "HourFromTime (one_month_later L) = HourFromTime L"
    unfolding tl fields_of_time by (rule time_fields_within_day)
  show "MinFromTime (one_month_later L) = MinFromTime L"
    unfolding tl fields_of_time by (rule time_fields_within_day)
  show "SecFromTime (one_month_later L) = SecFromTime L"
    unfolding tl fields_of_time by (rule time_fields_within_day)
  show "msFromTime (one_month_later L) = msFromTime L"
    unfolding tl fields_of_time by (rule time_fields_within_day)
qed

text \<open>
  In UTC, and while the dates stay in the range of \<^verbatim>\<open>Date\<close>, the two readings of
  \<open>addOneMonth\<close> agree.
\<close>

lemma utc_times: "LocalTime utc t = t" "UTC utc t = t"
  by (simp_all add: LocalTime_def UTC_def utc_def)

lemma utc_accessors:
  "getFullYear_tz utc d = getFullYear d" "getMonth_tz utc d = getMonth d"
  "getDate_tz utc d = getDate d" "getHours_tz utc d = getHours d"
  "getMinutes_tz utc d = getMinutes d" "getSeconds_tz utc d = getSeconds d"
  "getMilliseconds_tz utc d = getMilliseconds d"
  unfolding getFullYear_tz_def getMonth_tz_def getDate_tz_def getHours_tz_def
    getMinutes_tz_def getSeconds_tz_def getMilliseconds_tz_def getFullYear_def getMonth_def
    getDate_def getHours_def getMinutes_def getSeconds_def getMilliseconds_def utc_times
  by (rule refl)+

lemma new_Date_tz_utc:
  "new_Date_tz utc year month date hours minutes seconds ms
     = TimeClip (new_Date year month date hours minutes seconds ms)"
  unfolding new_Date_tz_def new_Date_def Let_def utc_times by (rule refl)

lemma addOneMonth_tz_utc:
  assumes "\<bar>new_Date (getFullYear orig + (getMonth orig + 1) div 12)
                 ((getMonth orig + 1) mod 12 + 1) 0 0 0 0 0\<bar> \<le> 8640000000000000"
  shows "addOneMonth_tz utc orig = TimeClip (addOneMonth orig)"
proof -
  have "daysInMonth_tz utc (getFullYear orig + (getMonth orig + 1) div 12)
          ((getMonth orig + 1) mod 12)
      = Some (daysInMonth (getFullYear orig + (getMonth orig + 1) div 12)
          ((getMonth orig + 1) mod 12))"
    unfolding daysInMonth_tz_def daysInMonth_def new_Date_tz_utc
      TimeClip_in_range [OF assms]
    by (simp add: utc_accessors)
  then show ?thesis
    unfolding addOneMonth_tz_def addOneMonth_def Let_def utc_accessors new_Date_tz_utc
    by simp
qed


section \<open>Strings and exceptions\<close>

text \<open>
  \<^verbatim>\<open>a || b\<close> on strings: the empty string is falsy.
\<close>

definition or_default :: "string \<Rightarrow> string \<Rightarrow> string" where
  "or_default s d = (if s = [] then d else s)"

text \<open>
  \<^verbatim>\<open>s.split(sep).pop()\<close> for a one-character separator: the part of \<open>s\<close> after the last
  separator, the whole of \<open>s\<close> when there is none.
\<close>

definition split_pop :: "char \<Rightarrow> string \<Rightarrow> string" where
  "split_pop sep s = rev (takeWhile (\<lambda>c. c \<noteq> sep) (rev s))"

text \<open>\<^verbatim>\<open>toLowerCase\<close> on the ASCII letters, which is all \<open>getProviderByName\<close> depends on.\<close>

definition lower_char :: "char \<Rightarrow> char" where
  "lower_char c =
     (let n = (of_char c :: nat) in if 65 \<le> n \<and> n \<le> 90 then char_of (n + 32) else c)"

definition toLowerCase :: "string \<Rightarrow> string" where
  "toLowerCase s = map lower_char s"

text \<open>
  The exceptions of the code: the NestJS HTTP exceptions with their message, the plain
  \<^verbatim>\<open>Error\<close> of \<open>StorageService.deleteFile\<close>, an error raised by a cloud SDK call, and a
  Prisma request error with its code.
\<close>

datatype exception =
    BadRequestException string
  | NotFoundException string
  | ForbiddenException string
  | ServiceUnavailableException string
  | Error string
  | SdkError
  | PrismaClientKnownRequestError string

section \<open>Storage providers\<close>

type_synonym buffer = "8 word list"

record FileUploadResult =
  ur_provider :: string
  ur_location :: string
  ur_key :: string
  ur_size :: int

record FileDownloadResult =
  dr_stream :: buffer
  dr_mimetype :: string
  dr_size :: int
  dr_fileName :: string

text \<open>
  A provider adapter together with the bucket it talks to. \<open>pclass\<close> is the class of the
  adapter (what \<^verbatim>\<open>instanceof\<close> tests). The remote backend is the map \<open>objects\<close> from keys
  to stored objects; whether a call to it succeeds is an input of the environment, held
  in the flags \<open>reachable\<close> (the bucket probe of \<^verbatim>\<open>isAvailable\<close>), \<open>put_fails\<close>,
  \<open>get_fails\<close> and \<open>delete_fails\<close>. \<open>calls\<close> is a ghost field: the log of the adapter
  methods that were invoked, used to state which calls an operation makes.
\<close>

datatype provider_class = AwsS3Provider | GcpStorageProvider

datatype adapter_call = IsAvailable | UploadFile string | DownloadFile string | DeleteFile string

record stored_object =
  so_body :: buffer
  so_contentType :: string

record StorageProvider =
  pclass :: provider_class
  bucketName :: string
  region :: string
  reachable :: bool
  put_fails :: bool
  get_fails :: bool
  delete_fails :: bool
  objects :: "string \<rightharpoonup> stored_object"
  calls :: "adapter_call list"

definition logged :: "adapter_call \<Rightarrow> StorageProvider \<Rightarrow> StorageProvider" where
  "logged c p = p\<lparr>calls := calls p @ [c]\<rparr>"

text \<open>
  \<^verbatim>\<open>isAvailable\<close>: both adapters catch every error of the probe and return false.
\<close>

definition provider_isAvailable :: "StorageProvider \<Rightarrow> bool \<times> StorageProvider" where
  "provider_isAvailable p = (reachable p, logged IsAvailable p)"

definition upload_location :: "StorageProvider \<Rightarrow> string \<Rightarrow> string" where
  "upload_location p key =
     (case pclass p of
        AwsS3Provider \<Rightarrow>
          ''https://'' @ bucketName p @ ''.s3.'' @ region p @ ''.amazonaws.com/'' @ key
      | GcpStorageProvider \<Rightarrow>
          ''https://storage.googleapis.com/'' @ bucketName p @ ''/'' @ key)"

definition provider_tag :: "StorageProvider \<Rightarrow> string" where
  "provider_tag p = (case pclass p of AwsS3Provider \<Rightarrow> ''aws'' | GcpStorageProvider \<Rightarrow> ''gcp'')"

text \<open>
  \<^verbatim>\<open>uploadFile\<close>: the SDK call stores the object or raises; the AWS adapter lets the error
  through, the GCP adapter logs it and raises it again.
\<close>

definition provider_uploadFile ::
  "StorageProvider \<Rightarrow> buffer \<Rightarrow> string \<Rightarrow> string
     \<Rightarrow> (exception + FileUploadResult) \<times> StorageProvider" where
  "provider_uploadFile p file key mimetype =
     (let p1 = logged (UploadFile key) p
      in if put_fails p then (Inl SdkError, p1)
         else (Inr \<lparr>ur_provider = provider_tag p, ur_location = upload_location p key,
                     ur_key = key, ur_size = int (length file)\<rparr>,
               p1\<lparr>objects := (objects p)(key \<mapsto> \<lparr>so_body = file, so_contentType = mimetype\<rparr>)\<rparr>))"

text \<open>
  \<^verbatim>\<open>downloadFile\<close>: the SDK call raises when it fails or the key is absent.
\<close>

definition provider_downloadFile ::
  "StorageProvider \<Rightarrow> string \<Rightarrow> (exception + FileDownloadResult) \<times> StorageProvider" where
  "provider_downloadFile p key =
     (let p1 = logged (DownloadFile key) p
      in if get_fails p then (Inl SdkError, p1)
         else case objects p key of
                None \<Rightarrow> (Inl SdkError, p1)
              | Some obj \<Rightarrow>
                  (Inr \<lparr>dr_stream = so_body obj,
                        dr_mimetype = or_default (so_contentType obj) ''application/octet-stream'',
                        dr_size = int (length (so_body obj)),
                        dr_fileName = or_default (split_pop (CHR ''/'') key) ''download''\<rparr>,
                   p1))"

text \<open>
  \<^verbatim>\<open>deleteFile\<close>: both adapters catch every error of the SDK call and return false; they
  never raise. Deleting an absent key succeeds on S3 and is an error (404) on GCP.
\<close>

definition provider_deleteFile :: "StorageProvider \<Rightarrow> string \<Rightarrow> bool \<times> StorageProvider" where
  "provider_deleteFile p key =
     (let p1 = logged (DeleteFile key) p
      in if delete_fails p then (False, p1)
         else if pclass p = GcpStorageProvider \<and> objects p key = None then (False, p1)
         else (True, p1\<lparr>objects := (objects p)(key := None)\<rparr>))"

section \<open>StorageService\<close>

text \<open>
  The service holds the two injected adapters; \<open>providers\<close> is the array
  \<^verbatim>\<open>[awsProvider, gcpProvider]\<close> of the constructor, whose order is the failover order.
  The loops of the service are written over an arbitrary list of providers and return
  the list with the providers as the calls left them; \<open>with_providers\<close> stores them back.
\<close>

record StorageService =
  awsProvider :: StorageProvider
  gcpProvider :: StorageProvider

definition providers :: "StorageService \<Rightarrow> StorageProvider list" where
  "providers s = [awsProvider s, gcpProvider s]"

definition with_providers :: "StorageService \<Rightarrow> StorageProvider list \<Rightarrow> StorageService" where
  "with_providers s ps = s\<lparr>awsProvider := ps ! 0, gcpProvider := ps ! 1\<rparr>"

text \<open>
  The loop of \<open>uploadFile\<close>: an error of \<^verbatim>\<open>provider.uploadFile\<close> is caught and logged, and
  the loop goes on with the next provider.
\<close>

fun uploadFile_loop ::
  "StorageProvider list \<Rightarrow> buffer \<Rightarrow> string \<Rightarrow> string
     \<Rightarrow> FileUploadResult option \<times> StorageProvider list" where
  "uploadFile_loop [] file key mimetype = (None, [])"
| "uploadFile_loop (provider # rest) file key mimetype =
     (let (isAvailable, p1) = provider_isAvailable provider
      in if isAvailable then
           (case provider_uploadFile p1 file key mimetype of
              (Inr result, p2) \<Rightarrow> (Some result, p2 # rest)
            | (Inl error, p2) \<Rightarrow>
                (let (r, rest') = uploadFile_loop rest file key mimetype in (r, p2 # rest')))
         else (let (r, rest') = uploadFile_loop rest file key mimetype in (r, p1 # rest')))"

definition StorageService_uploadFile ::
  "StorageService \<Rightarrow> buffer \<Rightarrow> string \<Rightarrow> string
     \<Rightarrow> (exception + FileUploadResult) \<times> StorageService" where
  "StorageService_uploadFile s file key mimetype =
     (case uploadFile_loop (providers s) file key mimetype of
        (Some result, ps) \<Rightarrow> (Inr result, with_providers s ps)
      | (None, ps) \<Rightarrow>
          (Inl (ServiceUnavailableException ''All storage providers are unavailable''),
           with_providers s ps))"

text \<open>
  \<open>getProviderByName\<close> returns one of the two injected adapters, here as the reference
  to it; \<open>getProviderName\<close> is the \<^verbatim>\<open>instanceof\<close> test.
\<close>

datatype provider_ref = AwsRef | GcpRef

definition deref :: "StorageService \<Rightarrow> provider_ref \<Rightarrow> StorageProvider" where
  "deref s r = (case r of AwsRef \<Rightarrow> awsProvider s | GcpRef \<Rightarrow> gcpProvider s)"

definition assign :: "StorageService \<Rightarrow> provider_ref \<Rightarrow> StorageProvider \<Rightarrow> StorageService" where
  "assign s r p = (case r of AwsRef \<Rightarrow> s\<lparr>awsProvider := p\<rparr> | GcpRef \<Rightarrow> s\<lparr>gcpProvider := p\<rparr>)"

definition getProviderByName :: "string \<Rightarrow> provider_ref option" where
  "getProviderByName name =
     (if toLowerCase name = ''aws'' then Some AwsRef
      else if toLowerCase name = ''gcp'' then Some GcpRef
      else None)"

definition getProviderName :: "StorageProvider \<Rightarrow> string" where
  "getProviderName p = (case pclass p of AwsS3Provider \<Rightarrow> ''aws'' | GcpStorageProvider \<Rightarrow> ''gcp'')"

text \<open>
  One attempt of \<open>downloadFile\<close> on one provider, the body of both of its
  \<^verbatim>\<open>try\<close> blocks: probe, download when available, catch and log an error.
\<close>

definition try_download ::
  "StorageProvider \<Rightarrow> string \<Rightarrow> FileDownloadResult option \<times> StorageProvider" where
  "try_download p key =
     (let (isAvailable, p1) = provider_isAvailable p
      in if isAvailable then
           (case provider_downloadFile p1 key of
              (Inr result, p2) \<Rightarrow> (Some result, p2)
            | (Inl error, p2) \<Rightarrow> (None, p2))
         else (None, p1))"

text \<open>The failover loop of \<open>downloadFile\<close> (the variant of the service that has one).\<close>

fun downloadFile_failover ::
  "string \<Rightarrow> StorageProvider list \<Rightarrow> string
     \<Rightarrow> FileDownloadResult option \<times> StorageProvider list" where
  "downloadFile_failover provider [] key = (None, [])"
| "downloadFile_failover provider (otherProvider # rest) key =
     (if getProviderName otherProvider = provider then
        (let (r, rest') = downloadFile_failover provider rest key in (r, otherProvider # rest'))
      else
        (case try_download otherProvider key of
           (Some result, p1) \<Rightarrow> (Some result, p1 # rest)
         | (None, p1) \<Rightarrow>
             (let (r, rest') = downloadFile_failover provider rest key in (r, p1 # rest'))))"

text \<open>The first attempt of \<open>downloadFile\<close>, on the provider recorded at upload.\<close>

definition download_selected ::
  "StorageService \<Rightarrow> string \<Rightarrow> string \<Rightarrow> FileDownloadResult option \<times> StorageService" where
  "download_selected s key provider =
     (case getProviderByName provider of
        None \<Rightarrow> (None, s)
      | Some selectedProvider \<Rightarrow>
          (let (r, p1) = try_download (deref s selectedProvider) key
           in (r, assign s selectedProvider p1)))"

text \<open>
  \<open>StorageService.downloadFile\<close> with failover (source file \<^verbatim>\<open>unnamed/part_005\<close>).
\<close>

definition StorageService_downloadFile ::
  "StorageService \<Rightarrow> string \<Rightarrow> string \<Rightarrow> (exception + FileDownloadResult) \<times> StorageService" where
  "StorageService_downloadFile s key provider =
     (case download_selected s key provider of
        (Some result, s1) \<Rightarrow> (Inr result, s1)
      | (None, s1) \<Rightarrow>
          (case downloadFile_failover provider (providers s1) key of
             (Some result, ps) \<Rightarrow> (Inr result, with_providers s1 ps)
           | (None, ps) \<Rightarrow>
               (Inl (ServiceUnavailableException
                       ''Unable to download file from any storage provider''),
                with_providers s1 ps)))"

text \<open>
  \<open>StorageService.downloadFile\<close> of the other copy of the service (source file
  \<^verbatim>\<open>unnamed/part_004\<close>): only the recorded provider is tried.
\<close>

definition StorageService_downloadFile_recorded_only ::
  "StorageService \<Rightarrow> string \<Rightarrow> string \<Rightarrow> (exception + FileDownloadResult) \<times> StorageService" where
  "StorageService_downloadFile_recorded_only s key provider =
     (case download_selected s key provider of
        (Some result, s1) \<Rightarrow> (Inr result, s1)
      | (None, s1) \<Rightarrow>
          (Inl (ServiceUnavailableException
                  (''Storage provider is currently unavailable. The file will be sent ''
                   @ ''to your registered email once service is restored.'')),
           s1))"

definition StorageService_deleteFile ::
  "StorageService \<Rightarrow> string \<Rightarrow> string \<Rightarrow> (exception + bool) \<times> StorageService" where
  "StorageService_deleteFile s key provider =
     (case getProviderByName provider of
        None \<Rightarrow> (Inl (Error (''Provider '' @ provider @ '' not found'')), s)
      | Some selectedProvider \<Rightarrow>
          (let (r, p1) = provider_deleteFile (deref s selectedProvider) key
           in (Inr r, assign s selectedProvider p1)))"

section \<open>Vocabulary for the storage claims\<close>

text \<open>
  A provider is usable for an upload when its probe answers true and its upload call
  succeeds; \<open>upload_result\<close> is the result its adapter returns then, \<open>new_calls\<close> the
  adapter calls an operation added to the log.
\<close>

definition usable :: "StorageProvider \<Rightarrow> bool" where
  "usable p \<longleftrightarrow> reachable p \<and> \<not> put_fails p"

definition upload_result :: "StorageProvider \<Rightarrow> buffer \<Rightarrow> string \<Rightarrow> FileUploadResult" where
  "upload_result p file key =
     \<lparr>ur_provider = provider_tag p, ur_location = upload_location p key,
      ur_key = key, ur_size = int (length file)\<rparr>"

definition new_calls :: "StorageProvider \<Rightarrow> StorageProvider \<Rightarrow> adapter_call list" where
  "new_calls p p' = drop (length (calls p)) (calls p')"

text \<open>
  A provider can serve a key when its probe answers true and its download call succeeds,
  which needs the object to be in its bucket; \<open>download_result\<close> is what its adapter
  returns then.
\<close>

definition can_serve :: "StorageProvider \<Rightarrow> string \<Rightarrow> bool" where
  "can_serve p key \<longleftrightarrow> reachable p \<and> \<not> get_fails p \<and> objects p key \<noteq> None"

definition download_result :: "StorageProvider \<Rightarrow> string \<Rightarrow> FileDownloadResult" where
  "download_result p key =
     \<lparr>dr_stream = so_body (the (objects p key)),
      dr_mimetype = or_default (so_contentType (the (objects p key))) ''application/octet-stream'',
      dr_size = int (length (so_body (the (objects p key)))),
      dr_fileName = or_default (split_pop (CHR ''/'') key) ''download''\<rparr>"

text \<open>The typing of the two injected adapters.\<close>

definition well_typed :: "StorageService \<Rightarrow> bool" where
  "well_typed s \<longleftrightarrow>
     pclass (awsProvider s) = AwsS3Provider \<and> pclass (gcpProvider s) = GcpStorageProvider"

definition same_backend :: "StorageProvider \<Rightarrow> StorageProvider \<Rightarrow> bool" where
  "same_backend p p' \<longleftrightarrow> p' = p\<lparr>calls := calls p'\<rparr>"

definition recorded_serving :: "StorageService \<Rightarrow> string \<Rightarrow> string \<Rightarrow> StorageProvider option" where
  "recorded_serving s key provider =
     (case getProviderByName provider of
        None \<Rightarrow> None
      | Some r \<Rightarrow> if can_serve (deref s r) key then Some (deref s r) else None)"

definition first_serving :: "StorageService \<Rightarrow> string \<Rightarrow> StorageProvider option" where
  "first_serving s key = find (\<lambda>p. can_serve p key) (providers s)"

section \<open>The database and the environment\<close>

text \<open>
  The rows of the three Prisma models the services use; the key of a user or file row
  is its id. \<open>u_nextQuotaResetDate\<close> is nullable. A usage history row carries the id the
  database gave it.
\<close>

record User =
  u_username :: string
  u_isAdmin :: bool
  u_monthlyUsage :: int
  u_nextQuotaResetDate :: "Date option"
  u_maxStorageCapacity :: int

record File =
  f_name :: string
  f_originalName :: string
  f_size :: int
  f_mimeType :: string
  f_cloudProvider :: string
  f_cloudPath :: string
  f_userId :: string
  f_uploadedAt :: Date

record UsageHistory =
  uh_id :: nat
  uh_userId :: string
  uh_date :: Date
  uh_usageBytes :: int

text \<open>
  The state the services run on: the three tables, the storage service with its two
  backends, and the inputs of the environment. \<open>clock\<close> is the sequence of the readings
  the next calls of \<^verbatim>\<open>new Date()\<close> will return, \<open>uuids\<close> the sequence of the identifiers
  the next calls of \<^verbatim>\<open>uuidv4()\<close> and the database will generate, \<open>next_row_id\<close> the next
  id of a usage history row, \<open>api_url\<close> the value of \<^verbatim>\<open>process.env.API_URL\<close>.
  Requests run one after the other: the model has no concurrency.
\<close>

record world =
  prisma_user :: "string \<rightharpoonup> User"
  prisma_file :: "string \<rightharpoonup> File"
  prisma_usageHistory :: "UsageHistory list"
  storage :: StorageService
  clock :: "nat \<Rightarrow> Date"
  uuids :: "nat \<Rightarrow> string"
  next_row_id :: nat
  api_url :: string

text \<open>\<^verbatim>\<open>new Date()\<close>: the next reading of the clock.\<close>

definition Date_now :: "world \<Rightarrow> Date \<times> world" where
  "Date_now w = (clock w 0, w\<lparr>clock := (\<lambda>n. clock w (Suc n))\<rparr>)"

definition uuidv4 :: "world \<Rightarrow> string \<times> world" where
  "uuidv4 w = (uuids w 0, w\<lparr>uuids := (\<lambda>n. uuids w (Suc n))\<rparr>)"

text \<open>
  \<^verbatim>\<open>prisma.user.update\<close>: raises (code P2025) when the row does not exist.
\<close>

definition prisma_update_user ::
  "world \<Rightarrow> string \<Rightarrow> (User \<Rightarrow> User) \<Rightarrow> (exception + unit) \<times> world" where
  "prisma_update_user w userId f =
     (case prisma_user w userId of
        None \<Rightarrow> (Inl (PrismaClientKnownRequestError ''P2025''), w)
      | Some u \<Rightarrow> (Inr (), w\<lparr>prisma_user := (prisma_user w)(userId \<mapsto> f u)\<rparr>))"

text \<open>
  \<^verbatim>\<open>prisma.file.create\<close>: the database generates the id and the upload time; a row
  with that id already there is a unique constraint error (code P2002).
\<close>

definition prisma_file_create ::
  "world \<Rightarrow> (Date \<Rightarrow> File) \<Rightarrow> (exception + string \<times> File) \<times> world" where
  "prisma_file_create w data =
     (let (fid, w1) = uuidv4 w;
          (now, w2) = Date_now w1
      in case prisma_file w2 fid of
           Some _ \<Rightarrow> (Inl (PrismaClientKnownRequestError ''P2002''), w2)
         | None \<Rightarrow>
             (Inr (fid, data now), w2\<lparr>prisma_file := (prisma_file w2)(fid \<mapsto> data now)\<rparr>))"

definition prisma_file_delete :: "world \<Rightarrow> string \<Rightarrow> (exception + unit) \<times> world" where
  "prisma_file_delete w fileId =
     (case prisma_file w fileId of
        None \<Rightarrow> (Inl (PrismaClientKnownRequestError ''P2025''), w)
      | Some _ \<Rightarrow> (Inr (), w\<lparr>prisma_file := (prisma_file w)(fileId := None)\<rparr>))"

section \<open>UsersService\<close>

definition isAdmin :: "world \<Rightarrow> string \<Rightarrow> (exception + bool) \<times> world" where
  "isAdmin w userId =
     (case prisma_user w userId of
        None \<Rightarrow> (Inl (BadRequestException ''User not found''), w)
      | Some user \<Rightarrow> (Inr (u_isAdmin user), w))"

text \<open>
  The loop of \<open>checkAndResetQuotaIfNeeded\<close>:
  \<^verbatim>\<open>while (newResetDate <= now) { newResetDate = this.addOneMonth(newResetDate); }\<close>
  It terminates because \<open>addOneMonth\<close> returns a later date.
\<close>

function rollForward :: "Date \<Rightarrow> Date \<Rightarrow> Date" where
  "rollForward newResetDate now =
     (if newResetDate \<le> now then rollForward (addOneMonth newResetDate) now
      else newResetDate)"
  by pat_completeness auto
termination
proof (relation "measure (\<lambda>(d, now). nat (now + 1 - d))")
  show "wf (measure (\<lambda>(d, now). nat (now + 1 - d)))" by simp
next
  fix newResetDate now :: int
  assume "newResetDate \<le> now"
  with addOneMonth_later [of newResetDate]
  show "((addOneMonth newResetDate, now), newResetDate, now)
          \<in> measure (\<lambda>(d, now). nat (now + 1 - d))"
    by simp
qed

declare rollForward.simps [simp del]

definition checkAndResetQuotaIfNeeded ::
  "world \<Rightarrow> string \<Rightarrow> Date option \<Rightarrow> (exception + unit) \<times> world" where
  "checkAndResetQuotaIfNeeded w userId nextResetDate =
     (let (now, w1) = Date_now w
      in if (case nextResetDate of None \<Rightarrow> True | Some d \<Rightarrow> d \<le> now) then
           (let (start, w2) = (case nextResetDate of Some d \<Rightarrow> (d, w1) | None \<Rightarrow> Date_now w1);
                newResetDate = rollForward start now
            in prisma_update_user w2 userId
                 (\<lambda>u. u\<lparr>u_monthlyUsage := 0, u_nextQuotaResetDate := Some newResetDate\<rparr>))
         else (Inr (), w1))"

definition checkUserStorageQuota :: "world \<Rightarrow> string \<Rightarrow> int \<Rightarrow> (exception + bool) \<times> world" where
  "checkUserStorageQuota w userId fileSize =
     (case prisma_user w userId of
        None \<Rightarrow> (Inl (BadRequestException ''User not found''), w)
      | Some user \<Rightarrow>
          (case checkAndResetQuotaIfNeeded w userId (u_nextQuotaResetDate user) of
             (Inl e, w1) \<Rightarrow> (Inl e, w1)
           | (Inr _, w1) \<Rightarrow>
               (case prisma_user w1 userId of
                  None \<Rightarrow>
                    (Inl (BadRequestException ''User not found after quota reset check''), w1)
                | Some freshUser \<Rightarrow>
                    (let usageInBytes = u_monthlyUsage freshUser;
                         maxStorageInBytes = u_maxStorageCapacity user
                     in (Inr (usageInBytes + fileSize \<le> maxStorageInBytes), w1)))))"

text \<open>
  The usage history part of \<open>updateUserStorageUsage\<close>: \<^verbatim>\<open>findFirst\<close> takes the first row
  of the user whose date lies in the 24 hours from the start of today; the row is
  incremented, or a row for today is created.
\<close>

definition in_day :: "Date \<Rightarrow> string \<Rightarrow> UsageHistory \<Rightarrow> bool" where
  "in_day today userId r \<longleftrightarrow>
     uh_userId r = userId \<and> today \<le> uh_date r \<and> uh_date r < today + 24 * 60 * 60 * 1000"

definition recordUsageHistory :: "world \<Rightarrow> string \<Rightarrow> int \<Rightarrow> world" where
  "recordUsageHistory w userId fileSize =
     (let (now, w1) = Date_now w;
          today = setHours0 now
      in case find (in_day today userId) (prisma_usageHistory w1) of
           Some existingRecord \<Rightarrow>
             w1\<lparr>prisma_usageHistory :=
                  map (\<lambda>r. if uh_id r = uh_id existingRecord
                            then r\<lparr>uh_usageBytes := uh_usageBytes r + fileSize\<rparr> else r)
                      (prisma_usageHistory w1)\<rparr>
         | None \<Rightarrow>
             w1\<lparr>prisma_usageHistory :=
                  prisma_usageHistory w1 @
                    [\<lparr>uh_id = next_row_id w1, uh_userId = userId, uh_date = today,
                      uh_usageBytes = fileSize\<rparr>],
                next_row_id := Suc (next_row_id w1)\<rparr>)"

definition updateUserStorageUsage :: "world \<Rightarrow> string \<Rightarrow> int \<Rightarrow> (exception + unit) \<times> world" where
  "updateUserStorageUsage w userId fileSize =
     (case prisma_user w userId of
        None \<Rightarrow> (Inl (BadRequestException ''User not found''), w)
      | Some user \<Rightarrow>
          (case checkAndResetQuotaIfNeeded w userId (u_nextQuotaResetDate user) of
             (Inl e, w1) \<Rightarrow> (Inl e, w1)
           | (Inr _, w1) \<Rightarrow>
               (case prisma_update_user w1 userId
                       (\<lambda>u. u\<lparr>u_monthlyUsage := u_monthlyUsage u + fileSize\<rparr>) of
                  (Inl e, w2) \<Rightarrow> (Inl e, w2)
                | (Inr _, w2) \<Rightarrow> (Inr (), recordUsageHistory w2 userId fileSize))))"

text \<open>
  \<open>UsersService.getDailyUsageStats\<close>: today's rows with positive usage, joined with the
  user for the username, by descending usage (rows of equal usage in table order).
\<close>

record usage_row =
  us_username :: string
  us_usageBytes :: int

definition UsersService_getDailyUsageStats :: "world \<Rightarrow> usage_row list \<times> world" where
  "UsersService_getDailyUsageStats w =
     (let (now, w1) = Date_now w;
          today = setHours0 now;
          rows = filter (\<lambda>r. today \<le> uh_date r \<and> uh_date r < today + 24 * 60 * 60 * 1000
                              \<and> 0 < uh_usageBytes r)
                   (prisma_usageHistory w1);
          joined = List.map_filter
                     (\<lambda>r. map_option
                             (\<lambda>u. \<lparr>us_username = u_username u, us_usageBytes = uh_usageBytes r\<rparr>)
                             (prisma_user w1 (uh_userId r)))
                     rows
      in (sort_key (\<lambda>x. - us_usageBytes x) joined, w1))"

text \<open>The base of the roll forward: the stored date, the current time when there is none.\<close>

definition rollover_start :: "world \<Rightarrow> Date option \<Rightarrow> Date" where
  "rollover_start w nextResetDate = (case nextResetDate of Some d \<Rightarrow> d | None \<Rightarrow> clock w 1)"

definition is_due :: "world \<Rightarrow> Date option \<Rightarrow> bool" where
  "is_due w nextResetDate = (case nextResetDate of None \<Rightarrow> True | Some d \<Rightarrow> d \<le> clock w 0)"

section \<open>StatsService\<close>

record stat =
  st_username :: string
  st_usageBytes :: int
  st_usageMB :: rat

definition StatsService_getDailyUsageStats ::
  "world \<Rightarrow> string \<Rightarrow> (exception + stat list) \<times> world" where
  "StatsService_getDailyUsageStats w userId =
     (case isAdmin w userId of
        (Inl e, w1) \<Rightarrow> (Inl e, w1)
      | (Inr admin, w1) \<Rightarrow>
          if \<not> admin then (Inl (ForbiddenException ''Admin access required''), w1)
          else (let (stats, w2) = UsersService_getDailyUsageStats w1
                in (Inr (map (\<lambda>x. \<lparr>st_username = us_username x,
                                     st_usageBytes = us_usageBytes x,
                                     st_usageMB = of_int (us_usageBytes x) / (1024 * 1024)\<rparr>)
                              stats),
                    w2)))"

section \<open>FilesService\<close>

text \<open>The uploaded file as the HTTP layer hands it over (\<^verbatim>\<open>Express.Multer.File\<close>).\<close>

record MulterFile =
  mf_originalname :: string
  mf_mimetype :: string
  mf_size :: int
  mf_buffer :: buffer

record FileResponseDto =
  dto_id :: string
  dto_name :: string
  dto_originalName :: string
  dto_size :: int
  dto_uploadedAt :: Date
  dto_url :: string

record DownloadDto =
  dl_stream :: buffer
  dl_mimetype :: string
  dl_size :: int
  dl_filename :: string

definition with_storage ::
  "world \<Rightarrow> ('a \<times> StorageService) \<Rightarrow> 'a \<times> world" where
  "with_storage w r = (fst r, w\<lparr>storage := snd r\<rparr>)"

definition FilesService_uploadFile ::
  "world \<Rightarrow> MulterFile \<Rightarrow> string \<Rightarrow> (exception + FileResponseDto) \<times> world" where
  "FilesService_uploadFile w file userId =
     (let fileSize = mf_size file
      in case checkUserStorageQuota w userId fileSize of
           (Inl e, w1) \<Rightarrow> (Inl e, w1)
         | (Inr hasQuota, w1) \<Rightarrow>
             if \<not> hasQuota then
               (Inl (BadRequestException ''Storage quota exceeded (5GB limit)''), w1)
             else
               (let fileExtension = split_pop (CHR ''.'') (mf_originalname file);
                    (uuid, w2) = uuidv4 w1;
                    uniqueFilename = uuid @ ''.'' @ fileExtension;
                    cloudPath = ''uploads/'' @ userId @ ''/'' @ uniqueFilename
                in case with_storage w2
                          (StorageService_uploadFile (storage w2) (mf_buffer file) cloudPath
                             (mf_mimetype file)) of
                     (Inl e, w3) \<Rightarrow> (Inl e, w3)
                   | (Inr uploadResult, w3) \<Rightarrow>
                       (case prisma_file_create w3
                               (\<lambda>now. \<lparr>f_name = uniqueFilename,
                                        f_originalName = mf_originalname file,
                                        f_size = mf_size file,
                                        f_mimeType = mf_mimetype file,
                                        f_cloudProvider = ur_provider uploadResult,
                                        f_cloudPath = ur_key uploadResult,
                                        f_userId = userId,
                                        f_uploadedAt = now\<rparr>) of
                          (Inl e, w4) \<Rightarrow> (Inl e, w4)
                        | (Inr (fid, fileRecord), w4) \<Rightarrow>
                            (case updateUserStorageUsage w4 userId (mf_size file) of
                               (Inl e, w5) \<Rightarrow> (Inl e, w5)
                             | (Inr _, w5) \<Rightarrow>
                                 (Inr \<lparr>dto_id = fid,
                                       dto_name = f_name fileRecord,
                                       dto_originalName = f_originalName fileRecord,
                                       dto_size = f_size fileRecord,
                                       dto_uploadedAt = f_uploadedAt fileRecord,
                                       dto_url = ur_location uploadResult\<rparr>,
                                  w5)))))"

definition FilesService_getFile ::
  "world \<Rightarrow> string \<Rightarrow> string \<Rightarrow> (exception + FileResponseDto) \<times> world" where
  "FilesService_getFile w fileId userId =
     (case prisma_file w fileId of
        None \<Rightarrow> (Inl (NotFoundException ''File not found''), w)
      | Some file \<Rightarrow>
          if f_userId file \<noteq> userId then (Inl (NotFoundException ''File not found''), w)
          else (Inr \<lparr>dto_id = fileId,
                     dto_name = f_name file,
                     dto_originalName = f_originalName file,
                     dto_size = f_size file,
                     dto_uploadedAt = f_uploadedAt file,
                     dto_url = api_url w @ ''/files/download/'' @ fileId\<rparr>,
                w))"

text \<open>
  \<open>getFileForDownload\<close> calls the \<open>downloadFile\<close> of the injected storage service, the
  parameter \<open>downloadFile\<close>: the repository has two copies of that service.
\<close>

definition FilesService_getFileForDownload ::
  "(StorageService \<Rightarrow> string \<Rightarrow> string \<Rightarrow> (exception + FileDownloadResult) \<times> StorageService)
     \<Rightarrow> world \<Rightarrow> string \<Rightarrow> string \<Rightarrow> (exception + DownloadDto) \<times> world" where
  "FilesService_getFileForDownload downloadFile w fileId userId =
     (case prisma_file w fileId of
        None \<Rightarrow> (Inl (NotFoundException ''File not found''), w)
      | Some file \<Rightarrow>
          if f_userId file \<noteq> userId then (Inl (NotFoundException ''File not found''), w)
          else
            (case with_storage w
                    (downloadFile (storage w) (f_cloudPath file) (f_cloudProvider file)) of
               (Inl e, w1) \<Rightarrow> (Inl e, w1)
             | (Inr downloadResult, w1) \<Rightarrow>
                 (Inr \<lparr>dl_stream = dr_stream downloadResult,
                       dl_mimetype = dr_mimetype downloadResult,
                       dl_size = dr_size downloadResult,
                       dl_filename = f_originalName file\<rparr>,
                  w1)))"

definition FilesService_deleteFile ::
  "world \<Rightarrow> string \<Rightarrow> string \<Rightarrow> (exception + bool) \<times> world" where
  "FilesService_deleteFile w fileId userId =
     (case prisma_file w fileId of
        None \<Rightarrow> (Inl (NotFoundException ''File not found''), w)
      | Some file \<Rightarrow>
          if f_userId file \<noteq> userId then (Inl (NotFoundException ''File not found''), w)
          else
            (case with_storage w
                    (StorageService_deleteFile (storage w) (f_cloudPath file)
                       (f_cloudProvider file)) of
               (Inl e, w1) \<Rightarrow> (Inl e, w1)
             | (Inr _, w1) \<Rightarrow>
                 (case prisma_file_delete w1 fileId of
                    (Inl e, w2) \<Rightarrow> (Inl e, w2)
                  | (Inr _, w2) \<Rightarrow>
                      (let fileSize = f_size file * (- 1)
                       in case updateUserStorageUsage w2 userId fileSize of
                            (Inl e, w3) \<Rightarrow> (Inl e, w3)
                          | (Inr _, w3) \<Rightarrow> (Inr True, w3)))))"

section \<open>The daily usage ledger\<close>

text \<open>
  The key of a usage history row is its user and the calendar day of its date, the day
  being read as the date model of the quota engine reads it. A request is an upload or a
  delete; \<open>perform\<close> runs one and keeps the state it leaves, whether it succeeds or
  fails. The size of an uploaded file is not negative.
\<close>

definition ledger_key :: "UsageHistory \<Rightarrow> string \<times> int" where
  "ledger_key r = (uh_userId r, Day (uh_date r))"

definition one_entry_per_day :: "world \<Rightarrow> bool" where
  "one_entry_per_day w \<longleftrightarrow> distinct (map ledger_key (prisma_usageHistory w))"

definition entries_nonnegative :: "world \<Rightarrow> bool" where
  "entries_nonnegative w \<longleftrightarrow> list_all (\<lambda>r. 0 \<le> uh_usageBytes r) (prisma_usageHistory w)"

datatype request = Upload MulterFile string | Delete string string

fun perform :: "world \<Rightarrow> request \<Rightarrow> world" where
  "perform w (Upload file userId) = snd (FilesService_uploadFile w file userId)"
| "perform w (Delete fileId userId) = snd (FilesService_deleteFile w fileId userId)"

fun is_upload :: "request \<Rightarrow> bool" where
  "is_upload (Upload file userId) \<longleftrightarrow> 0 \<le> mf_size file"
| "is_upload (Delete fileId userId) \<longleftrightarrow> False"

section \<open>An example state\<close>

text \<open>
  A concrete state on which the theorems are evaluated: the user \<open>alice\<close> with capacity
  1000 and usage 600, whose quota cycle ends on 28 February 2025, an administrator, one
  600-byte file of \<open>alice\<close> stored at the AWS provider, and a clock that reads
  31 January 2025, 10:20:30.400.
\<close>

definition aws0 :: StorageProvider where
  "aws0 = \<lparr>pclass = AwsS3Provider, bucketName = ''bucket-a'', region = ''us-east-1'',
           reachable = True, put_fails = False, get_fails = False, delete_fails = False,
           objects = [''uploads/u-alice/f1.txt'' \<mapsto>
                        \<lparr>so_body = replicate 600 0, so_contentType = ''text/plain''\<rparr>],
           calls = []\<rparr>"

definition gcp0 :: StorageProvider where
  "gcp0 = \<lparr>pclass = GcpStorageProvider, bucketName = ''bucket-g'', region = [],
           reachable = True, put_fails = False, get_fails = False, delete_fails = False,
           objects = Map.empty, calls = []\<rparr>"

definition alice :: User where
  "alice = \<lparr>u_username = ''alice'', u_isAdmin = False, u_monthlyUsage = 600,
            u_nextQuotaResetDate = Some 1740738030400, u_maxStorageCapacity = 1000\<rparr>"

definition root :: User where
  "root = \<lparr>u_username = ''root'', u_isAdmin = True, u_monthlyUsage = 0,
           u_nextQuotaResetDate = Some 1740738030400, u_maxStorageCapacity = 1000\<rparr>"

definition file1 :: File where
  "file1 = \<lparr>f_name = ''f1.txt'', f_originalName = ''notes.txt'', f_size = 600,
            f_mimeType = ''text/plain'', f_cloudProvider = ''aws'',
            f_cloudPath = ''uploads/u-alice/f1.txt'', f_userId = ''u-alice'',
            f_uploadedAt = 1738281600500\<rparr>"

definition world0 :: world where
  "world0 = \<lparr>prisma_user = [''u-alice'' \<mapsto> alice, ''u-root'' \<mapsto> root],
             prisma_file = [''f1'' \<mapsto> file1],
             prisma_usageHistory =
               [\<lparr>uh_id = 0, uh_userId = ''u-alice'', uh_date = 1738281600000, uh_usageBytes = 600\<rparr>],
             storage = \<lparr>awsProvider = aws0, gcpProvider = gcp0\<rparr>,
             clock = (\<lambda>n. 1738318830400),
             uuids = (\<lambda>n. ''id-'' @ replicate n (CHR ''x'')),
             next_row_id = 1,
             api_url = ''http://localhost:3000''\<rparr>"

text \<open>The same state with an AWS backend whose delete call fails.\<close>

definition world_delete_fails :: world where
  "world_delete_fails =
     world0\<lparr>storage := \<lparr>awsProvider = aws0\<lparr>delete_fails := True\<rparr>, gcpProvider = gcp0\<rparr>\<rparr>"

definition aws_down :: StorageProvider where
  "aws_down = aws0\<lparr>reachable := False\<rparr>"

text \<open>
  The failover scenario: the AWS provider, which holds the file of the example state, is
  unavailable, and the GCP provider holds an equal object under the same key.
\<close>

definition storage_failover :: StorageService where
  "storage_failover =
     \<lparr>awsProvider = aws0\<lparr>reachable := False\<rparr>,
      gcpProvider = gcp0\<lparr>objects := objects aws0\<rparr>\<rparr>"

text \<open>
  A user whose quota cycle ended on 31 October 2024, three cycles before the clock of
  the example state.
\<close>

definition bob :: User where
  "bob = \<lparr>u_username = ''bob'', u_isAdmin = False, u_monthlyUsage = 900,
          u_nextQuotaResetDate = Some 1730370030400, u_maxStorageCapacity = 1000\<rparr>"

definition world_due :: world where
  "world_due = world0\<lparr>prisma_user := (prisma_user world0)(''u-bob'' \<mapsto> bob)\<rparr>"

definition world_rolled :: world where
  "world_rolled = snd (checkAndResetQuotaIfNeeded world_due ''u-bob'' (u_nextQuotaResetDate bob))"

text \<open>
  An empty system with one user, whose clock reads 31 January 2025 four times (the
  readings of one upload) and 1 February 2025 from then on.
\<close>

definition carol :: User where
  "carol = \<lparr>u_username = ''carol'', u_isAdmin = False, u_monthlyUsage = 0,
            u_nextQuotaResetDate = Some 1740738030400, u_maxStorageCapacity = 2000\<rparr>"

definition world_fresh :: world where
  "world_fresh = \<lparr>prisma_user = [''u-carol'' \<mapsto> carol],
             prisma_file = Map.empty,
             prisma_usageHistory = [],
             storage = \<lparr>awsProvider = aws0\<lparr>objects := Map.empty\<rparr>, gcpProvider = gcp0\<rparr>,
             clock = (\<lambda>n. if n < 4 then 1738318830400 else 1738405230400),
             uuids = (\<lambda>n. ''id-'' @ replicate n (CHR ''x'')),
             next_row_id = 0,
             api_url = ''http://localhost:3000''\<rparr>"

definition upload600 :: MulterFile where
  "upload600 = \<lparr>mf_originalname = ''notes.txt'', mf_mimetype = ''text/plain'', mf_size = 600,
                mf_buffer = replicate 600 0\<rparr>"

section \<open>Properties of the services\<close>

lemma getProviderByName_aws: "getProviderByName ''aws'' = Some AwsRef" by code_simp
lemma getProviderByName_gcp: "getProviderByName ''gcp'' = Some GcpRef" by code_simp
lemma setHours0_ex: "setHours0 1738318830400 = 1738281600000" by code_simp

lemma Date_now_frame:
  "prisma_user (snd (Date_now w)) = prisma_user w"
  "prisma_file (snd (Date_now w)) = prisma_file w"
  "prisma_usageHistory (snd (Date_now w)) = prisma_usageHistory w"
  "storage (snd (Date_now w)) = storage w"
  "uuids (snd (Date_now w)) = uuids w"
  "next_row_id (snd (Date_now w)) = next_row_id w"
  "api_url (snd (Date_now w)) = api_url w"
  by (simp_all add: Date_now_def)

lemma prisma_update_user_frame:
  "prisma_file (snd (prisma_update_user w userId f)) = prisma_file w"
  "prisma_usageHistory (snd (prisma_update_user w userId f)) = prisma_usageHistory w"
  "storage (snd (prisma_update_user w userId f)) = storage w"
  "uuids (snd (prisma_update_user w userId f)) = uuids w"
  "next_row_id (snd (prisma_update_user w userId f)) = next_row_id w"
  "api_url (snd (prisma_update_user w userId f)) = api_url w"
  "clock (snd (prisma_update_user w userId f)) = clock w"
  by (simp_all add: prisma_update_user_def split: option.splits)

lemma checkAndReset_frame:
  "prisma_file (snd (checkAndResetQuotaIfNeeded w userId d)) = prisma_file w"
  "prisma_usageHistory (snd (checkAndResetQuotaIfNeeded w userId d)) = prisma_usageHistory w"
  "storage (snd (checkAndResetQuotaIfNeeded w userId d)) = storage w"
  "uuids (snd (checkAndResetQuotaIfNeeded w userId d)) = uuids w"
  "next_row_id (snd (checkAndResetQuotaIfNeeded w userId d)) = next_row_id w"
  "api_url (snd (checkAndResetQuotaIfNeeded w userId d)) = api_url w"
  by (simp_all add: checkAndResetQuotaIfNeeded_def Date_now_def prisma_update_user_def
        split: option.splits)

lemma checkAndReset_not_due:
  assumes "d = Some r" "clock w 0 < r"
  shows "checkAndResetQuotaIfNeeded w userId d = (Inr (), snd (Date_now w))"
  using assms by (simp add: checkAndResetQuotaIfNeeded_def Date_now_def)

lemma checkUserStorageQuota_cases:
  assumes "checkUserStorageQuota w userId fileSize = (Inr b, w1)"
  shows "\<exists>u u1. prisma_user w userId = Some u
           \<and> w1 = snd (checkAndResetQuotaIfNeeded w userId (u_nextQuotaResetDate u))
           \<and> prisma_user w1 userId = Some u1
           \<and> b = (u_monthlyUsage u1 + fileSize \<le> u_maxStorageCapacity u)"
  using assms
  by (auto simp: checkUserStorageQuota_def Let_def split: option.splits prod.splits sum.splits)

lemma world0_quota: "checkUserStorageQuota world0 ''u-alice'' 500
    = (Inr False, world0\<lparr>clock := (\<lambda>n. clock world0 (Suc n))\<rparr>)"
  by (simp add: checkUserStorageQuota_def checkAndResetQuotaIfNeeded_def Date_now_def
        world0_def alice_def)

lemma provider_isAvailable_eq:
  "provider_isAvailable p = (reachable p, p\<lparr>calls := calls p @ [IsAvailable]\<rparr>)"
  by (simp add: provider_isAvailable_def logged_def)

lemma upload_after_probe:
  "provider_uploadFile (p\<lparr>calls := calls p @ [IsAvailable]\<rparr>) file key mt
     = (if put_fails p then
          (Inl SdkError, p\<lparr>calls := calls p @ [IsAvailable, UploadFile key]\<rparr>)
        else
          (Inr (upload_result p file key),
           p\<lparr>calls := calls p @ [IsAvailable, UploadFile key],
             objects := (objects p)(key \<mapsto> \<lparr>so_body = file, so_contentType = mt\<rparr>)\<rparr>))"
  by (simp add: provider_uploadFile_def logged_def upload_result_def provider_tag_def
        upload_location_def Let_def split: provider_class.splits)

lemma uploadFile_loop_result:
  "fst (uploadFile_loop ps file key mt)
     = map_option (\<lambda>p. upload_result p file key) (find usable ps)"
  by (induction ps)
     (auto simp: provider_isAvailable_eq upload_after_probe usable_def split: prod.splits)

lemma uploadFile_loop_length:
  "length (snd (uploadFile_loop ps file key mt)) = length ps"
  by (induction ps)
     (auto simp: provider_isAvailable_eq upload_after_probe split: prod.splits)

lemma uploadFile_loop_nth:
  assumes "i < length ps"
  shows "snd (uploadFile_loop ps file key mt) ! i
     = (if list_ex usable (take i ps) then ps ! i
        else if usable (ps ! i) then
          (ps ! i)\<lparr>calls := calls (ps ! i) @ [IsAvailable, UploadFile key],
                    objects := (objects (ps ! i))(key \<mapsto> \<lparr>so_body = file, so_contentType = mt\<rparr>)\<rparr>
        else if reachable (ps ! i) then
          (ps ! i)\<lparr>calls := calls (ps ! i) @ [IsAvailable, UploadFile key]\<rparr>
        else (ps ! i)\<lparr>calls := calls (ps ! i) @ [IsAvailable]\<rparr>)"
  using assms
proof (induction ps arbitrary: i)
  case Nil
  then show ?case by simp
next
  case (Cons p ps)
  show ?case
  proof (cases i)
    case 0
    then show ?thesis
      by (auto simp: provider_isAvailable_eq upload_after_probe usable_def split: prod.splits)
  next
    case (Suc j)
    with Cons.prems have j: "j < length ps" by simp
    show ?thesis
    proof (cases "usable p")
      case True
      then show ?thesis using Suc
        by (simp add: provider_isAvailable_eq upload_after_probe usable_def)
    next
      case False
      then have "snd (uploadFile_loop (p # ps) file key mt) ! i
          = snd (uploadFile_loop ps file key mt) ! j"
        using Suc
        by (auto simp: provider_isAvailable_eq upload_after_probe usable_def split: prod.splits)
      then show ?thesis using Cons.IH [OF j] False Suc by simp
    qed
  qed
qed

lemma first_usable_unique:
  assumes "i < length ps" "j < length ps"
    and "usable (ps ! i)" "\<not> list_ex usable (take i ps)"
    and "usable (ps ! j)" "\<not> list_ex usable (take j ps)"
  shows "i = j"
proof (rule ccontr)
  assume "i \<noteq> j"
  then consider "i < j" | "j < i" by linarith
  then show False
  proof cases
    case 1
    then have "ps ! i \<in> set (take j ps)"
      using assms(2) by (metis in_set_conv_nth length_take min.absorb2 nth_take less_imp_le)
    with assms(3,6) show False by (auto simp: list_ex_iff)
  next
    case 2
    then have "ps ! j \<in> set (take i ps)"
      using assms(1) by (metis in_set_conv_nth length_take min.absorb2 nth_take less_imp_le)
    with assms(5,4) show False by (auto simp: list_ex_iff)
  qed
qed

lemma find_None_not_usable:
  assumes "find usable ps = None" "i < length ps"
  shows "\<not> usable (ps ! i)"
  using assms by (auto simp: find_None_iff)

lemma usable_example:
  "\<not> reachable aws_down" "\<not> usable aws_down" "usable gcp0"
  "find usable [aws_down, gcp0] = Some gcp0"
  "\<not> list_ex usable (take 1 [aws_down, gcp0])"
  by (simp_all add: usable_def aws_down_def aws0_def gcp0_def)

lemma try_download_eq:
  "try_download p key
     = (if can_serve p key then Some (download_result p key) else None,
        p\<lparr>calls := calls p @ (if reachable p then [IsAvailable, DownloadFile key]
                               else [IsAvailable])\<rparr>)"
  by (auto simp: try_download_def provider_isAvailable_def provider_downloadFile_def logged_def
        can_serve_def download_result_def Let_def split: option.splits)

lemma same_backend_props:
  assumes "same_backend p p'"
  shows "can_serve p' key = can_serve p key" "download_result p' key = download_result p key"
    "getProviderName p' = getProviderName p" "objects p' = objects p" "pclass p' = pclass p"
proof -
  from assms have e: "p' = p\<lparr>calls := calls p'\<rparr>" by (simp add: same_backend_def)
  show "can_serve p' key = can_serve p key"
    by (subst e) (simp add: can_serve_def)
  show "download_result p' key = download_result p key"
    by (subst e) (simp add: download_result_def)
  show "getProviderName p' = getProviderName p"
    by (subst e) (simp add: getProviderName_def)
  show "objects p' = objects p" by (subst e) simp
  show "pclass p' = pclass p" by (subst e) simp
qed

lemma same_backend_try: "same_backend p (snd (try_download p key))"
  by (simp add: try_download_eq same_backend_def)

lemma same_backend_refl: "same_backend p p"
  by (simp add: same_backend_def)

lemma same_backend_trans: "same_backend p q \<Longrightarrow> same_backend q r \<Longrightarrow> same_backend p r"
  by (metis same_backend_def StorageProvider.update_convs(9) StorageProvider.surjective
      StorageProvider.select_convs(9))

lemma getProviderByName_cases:
  "getProviderByName ''aws'' = Some AwsRef" "getProviderByName ''gcp'' = Some GcpRef"
  by code_simp+

lemma download_selected_eq:
  "fst (download_selected s key provider)
     = map_option (\<lambda>p. download_result p key) (recorded_serving s key provider)"
  "same_backend (awsProvider s) (awsProvider (snd (download_selected s key provider)))"
  "same_backend (gcpProvider s) (gcpProvider (snd (download_selected s key provider)))"
  by (auto simp: download_selected_def recorded_serving_def try_download_eq deref_def assign_def
        same_backend_def split: option.splits provider_ref.splits)

lemma failover_two:
  "fst (downloadFile_failover provider [a, g] key)
     = map_option (\<lambda>p. download_result p key)
         (find (\<lambda>p. getProviderName p \<noteq> provider \<and> can_serve p key) [a, g])"
  "same_backend a (snd (downloadFile_failover provider [a, g] key) ! 0)"
  "same_backend g (snd (downloadFile_failover provider [a, g] key) ! 1)"
  by (auto simp: try_download_eq same_backend_def split: prod.splits option.splits)

lemma skipped_cannot_serve:
  assumes wt: "well_typed s" and none: "recorded_serving s key provider = None"
    and p: "p = awsProvider s \<or> p = gcpProvider s" and name: "getProviderName p = provider"
  shows "\<not> can_serve p key"
proof -
  from p wt have "(p = awsProvider s \<and> provider = ''aws'') \<or> (p = gcpProvider s \<and> provider = ''gcp'')"
    using name by (auto simp: well_typed_def getProviderName_def)
  then show ?thesis
    using none
    by (auto simp: recorded_serving_def getProviderByName_cases deref_def split: if_splits)
qed

lemma failover_after_selected:
  assumes wt: "well_typed s" and none: "recorded_serving s key provider = None"
    and a: "same_backend (awsProvider s) a" and g: "same_backend (gcpProvider s) g"
  shows "map_option (\<lambda>p. download_result p key)
           (find (\<lambda>p. getProviderName p \<noteq> provider \<and> can_serve p key) [a, g])
         = map_option (\<lambda>p. download_result p key) (first_serving s key)"
proof -
  have sa: "getProviderName (awsProvider s) = provider \<Longrightarrow> \<not> can_serve (awsProvider s) key"
    using skipped_cannot_serve [OF wt none, of "awsProvider s"] by simp
  have sg: "getProviderName (gcpProvider s) = provider \<Longrightarrow> \<not> can_serve (gcpProvider s) key"
    using skipped_cannot_serve [OF wt none, of "gcpProvider s"] by simp
  show ?thesis
    using sa sg same_backend_props [OF a] same_backend_props [OF g]
    by (auto simp: first_serving_def providers_def)
qed

lemma storage_failover_facts:
  "well_typed storage_failover"
  "recorded_serving storage_failover ''uploads/u-alice/f1.txt'' ''aws'' = None"
  "first_serving storage_failover ''uploads/u-alice/f1.txt'' = Some (gcpProvider storage_failover)"
  "can_serve (gcpProvider storage_failover) ''uploads/u-alice/f1.txt''"
  "\<not> can_serve (awsProvider storage_failover) ''uploads/u-alice/f1.txt''"
  by (simp_all add: well_typed_def recorded_serving_def first_serving_def providers_def
        getProviderByName_cases deref_def can_serve_def storage_failover_def aws0_def gcp0_def)

lemma storage_failover_result:
  "download_result (gcpProvider storage_failover) ''uploads/u-alice/f1.txt''
     = \<lparr>dr_stream = replicate 600 0, dr_mimetype = ''text/plain'', dr_size = 600,
        dr_fileName = ''f1.txt''\<rparr>"
  by (simp add: download_result_def storage_failover_def aws0_def gcp0_def or_default_def
        split_pop_def)

lemma rollForward_future: "now < rollForward d now"
proof (induction d now rule: rollForward.induct)
  case (1 newResetDate now)
  then show ?case by (cases "newResetDate \<le> now") (simp_all add: rollForward.simps)
qed

lemma rollForward_iterate:
  "\<exists>k. rollForward d now = (addOneMonth ^^ k) d
       \<and> (\<forall>j<k. (addOneMonth ^^ j) d \<le> now)
       \<and> (d \<le> now \<longrightarrow> 0 < k)"
proof (induction d now rule: rollForward.induct)
  case (1 newResetDate now)
  show ?case
  proof (cases "newResetDate \<le> now")
    case True
    from 1 [OF True] obtain k where
      k: "rollForward (addOneMonth newResetDate) now = (addOneMonth ^^ k) (addOneMonth newResetDate)"
      and below: "\<forall>j<k. (addOneMonth ^^ j) (addOneMonth newResetDate) \<le> now"
      by blast
    have eq: "rollForward newResetDate now = (addOneMonth ^^ Suc k) newResetDate"
      using True k by (simp add: rollForward.simps [of newResetDate] funpow_swap1)
    have "(addOneMonth ^^ j) newResetDate \<le> now" if "j < Suc k" for j
    proof (cases j)
      case 0
      then show ?thesis using True by simp
    next
      case (Suc i)
      with that have "i < k" by simp
      with below have "(addOneMonth ^^ i) (addOneMonth newResetDate) \<le> now" by blast
      then show ?thesis using Suc by (simp add: funpow_swap1)
    qed
    with eq show ?thesis by blast
  next
    case False
    then have "rollForward newResetDate now = (addOneMonth ^^ 0) newResetDate"
      by (simp add: rollForward.simps [of newResetDate])
    with False show ?thesis by (intro exI [of _ 0]) simp
  qed
qed

lemma checkAndReset_due:
  assumes "prisma_user w userId = Some u" "is_due w d"
  shows "fst (checkAndResetQuotaIfNeeded w userId d) = Inr ()"
    and "prisma_user (snd (checkAndResetQuotaIfNeeded w userId d))
          = (prisma_user w)(userId \<mapsto>
              u\<lparr>u_monthlyUsage := 0,
                u_nextQuotaResetDate := Some (rollForward (rollover_start w d) (clock w 0))\<rparr>)"
  using assms
  by (auto simp: checkAndResetQuotaIfNeeded_def Date_now_def prisma_update_user_def is_due_def
        rollover_start_def split: option.splits)

lemma checkAndReset_not_due':
  assumes "\<not> is_due w d"
  shows "checkAndResetQuotaIfNeeded w userId d = (Inr (), w\<lparr>clock := (\<lambda>n. clock w (Suc n))\<rparr>)"
  using assms
  by (auto simp: checkAndResetQuotaIfNeeded_def Date_now_def is_due_def split: option.splits)

lemma checkAndReset_future:
  assumes "prisma_user w userId = Some u"
  shows "\<exists>u' r. prisma_user (snd (checkAndResetQuotaIfNeeded w userId (u_nextQuotaResetDate u)))
                  userId = Some u'
               \<and> u_nextQuotaResetDate u' = Some r \<and> clock w 0 < r"
proof (cases "is_due w (u_nextQuotaResetDate u)")
  case True
  show ?thesis
    unfolding checkAndReset_due(2) [OF assms True] using rollForward_future by simp
next
  case False
  then obtain r where r: "u_nextQuotaResetDate u = Some r" "clock w 0 < r"
    by (auto simp: is_due_def split: option.splits)
  have "prisma_user (snd (checkAndResetQuotaIfNeeded w userId (u_nextQuotaResetDate u)))
      = prisma_user w"
    unfolding checkAndReset_not_due' [OF False] by simp
  then show ?thesis using assms r by simp
qed

lemma world_due_facts:
  "prisma_user world_due ''u-bob'' = Some bob"
  "is_due world_due (u_nextQuotaResetDate bob)"
  "clock world_due = (\<lambda>n. 1738318830400)"
  "u_nextQuotaResetDate bob = Some 1730370030400"
  "rollover_start world_due (u_nextQuotaResetDate bob) = 1730370030400"
  by (simp_all add: world_due_def world0_def bob_def is_due_def rollover_start_def)

lemma rollForward_example: "rollForward 1730370030400 1738318830400 = 1740738030400"
  by code_simp

lemma world_rolled_facts:
  "prisma_user world_rolled ''u-bob''
     = Some (bob\<lparr>u_monthlyUsage := 0, u_nextQuotaResetDate := Some 1740738030400\<rparr>)"
  "clock world_rolled 0 \<le> clock world_due 0"
  unfolding world_rolled_def
  by (simp_all add: checkAndReset_due(2) [OF world_due_facts(1,2)] world_due_facts
        rollForward_example checkAndResetQuotaIfNeeded_def Date_now_def prisma_update_user_def
        is_due_def)

text \<open>
  When \<open>StorageService.deleteFile\<close> raises, \<open>FilesService.deleteFile\<close> fails with the
  same error and leaves the whole state unchanged; it raises only for a provider id that
  names no adapter, and returns the boolean of the adapter otherwise.
\<close>

lemma deleteFile_storage_raises_aborts:
  assumes "prisma_file w fileId = Some file" and "f_userId file = userId"
    and "fst (StorageService_deleteFile (storage w) (f_cloudPath file) (f_cloudProvider file))
           = Inl e"
  shows "FilesService_deleteFile w fileId userId = (Inl e, w)
     \<and> getProviderByName (f_cloudProvider file) = None
     \<and> e = Error (''Provider '' @ f_cloudProvider file @ '' not found'')
     \<and> (\<forall>s key provider r. getProviderByName provider = Some r \<longrightarrow>
           fst (StorageService_deleteFile s key provider)
             = Inr (fst (provider_deleteFile (deref s r) key)))"
proof -
  have none: "getProviderByName (f_cloudProvider file) = None"
    using assms(3)
    by (auto simp: StorageService_deleteFile_def split: option.splits prod.splits)
  then have sd: "StorageService_deleteFile (storage w) (f_cloudPath file) (f_cloudProvider file)
      = (Inl (Error (''Provider '' @ f_cloudProvider file @ '' not found'')), storage w)"
    by (simp add: StorageService_deleteFile_def)
  with assms(3) have e: "e = Error (''Provider '' @ f_cloudProvider file @ '' not found'')"
    by simp
  have "FilesService_deleteFile w fileId userId = (Inl e, w)"
    using assms(1,2) sd e by (simp add: FilesService_deleteFile_def with_storage_def)
  moreover have "\<forall>s key provider r. getProviderByName provider = Some r \<longrightarrow>
           fst (StorageService_deleteFile s key provider)
             = Inr (fst (provider_deleteFile (deref s r) key))"
    by (simp add: StorageService_deleteFile_def split: prod.splits)
  ultimately show ?thesis using none e by simp
qed

subsection \<open>The daily usage ledger\<close>

lemma setHours0_eq: "setHours0 d = Day d * msPerDay"
  by (simp add: setHours0_def MakeDate_def MakeTime_def)

lemma in_day_iff_same_day:
  "in_day (setHours0 now) userId r \<longleftrightarrow> uh_userId r = userId \<and> Day (uh_date r) = Day now"
proof -
  have a: "Day (uh_date r) = Day now \<longleftrightarrow>
      Day now * 86400000 \<le> uh_date r \<and> uh_date r < Day now * 86400000 + 86400000"
  proof
    assume "Day (uh_date r) = Day now"
    then show "Day now * 86400000 \<le> uh_date r \<and> uh_date r < Day now * 86400000 + 86400000"
      using div_bounds [of 86400000 "uh_date r"] by (simp add: Day_def msPerDay_def mult.commute)
  next
    assume b: "Day now * 86400000 \<le> uh_date r \<and> uh_date r < Day now * 86400000 + 86400000"
    define q where "q = Day now"
    define e where "e = uh_date r - 86400000 * q"
    have e: "uh_date r = 86400000 * q + e" "0 \<le> e" "e < 86400000"
      using b by (simp_all add: e_def q_def)
    have "uh_date r div 86400000 = q" by (rule int_div_pos_eq [OF e])
    then show "Day (uh_date r) = Day now" by (simp add: Day_def msPerDay_def q_def)
  qed
  have t: "(24::int) * 60 * 60 * 1000 = 86400000" by simp
  have "in_day (setHours0 now) userId r \<longleftrightarrow>
      uh_userId r = userId \<and> Day now * 86400000 \<le> uh_date r
      \<and> uh_date r < Day now * 86400000 + 86400000"
    by (simp only: in_day_def setHours0_eq msPerDay_def t)
  with a show ?thesis by blast
qed

lemma Day_setHours0: "Day (setHours0 now) = Day now"
  unfolding setHours0_eq Day_def msPerDay_def by simp

lemma recordUsageHistory_history:
  "prisma_usageHistory (recordUsageHistory w userId n)
     = (case find (in_day (setHours0 (clock w 0)) userId) (prisma_usageHistory w) of
          Some e \<Rightarrow>
            map (\<lambda>r. if uh_id r = uh_id e then r\<lparr>uh_usageBytes := uh_usageBytes r + n\<rparr> else r)
              (prisma_usageHistory w)
        | None \<Rightarrow>
            prisma_usageHistory w @
              [\<lparr>uh_id = next_row_id w, uh_userId = userId, uh_date = setHours0 (clock w 0),
                uh_usageBytes = n\<rparr>])"
  by (simp add: recordUsageHistory_def Date_now_def Let_def split: option.splits)

lemma recordUsageHistory_keys:
  assumes "distinct (map ledger_key (prisma_usageHistory w))"
  shows "distinct (map ledger_key (prisma_usageHistory (recordUsageHistory w userId n)))"
proof (cases "find (in_day (setHours0 (clock w 0)) userId) (prisma_usageHistory w)")
  case None
  then have "\<forall>r\<in>set (prisma_usageHistory w). \<not> in_day (setHours0 (clock w 0)) userId r"
    by (simp add: find_None_iff)
  then have "(userId, Day (clock w 0)) \<notin> set (map ledger_key (prisma_usageHistory w))"
    unfolding in_day_iff_same_day by (auto simp: ledger_key_def)
  then show ?thesis
    using assms by (simp add: recordUsageHistory_history None ledger_key_def Day_setHours0)
next
  case (Some e)
  define f :: "UsageHistory \<Rightarrow> UsageHistory" where "f = (\<lambda>r. if uh_id r = uh_id e
           then r\<lparr>uh_usageBytes := uh_usageBytes r + n\<rparr> else r)"
  have k: "ledger_key (f r) = ledger_key r" for r
    by (simp add: f_def ledger_key_def)
  have "map ledger_key (map f (prisma_usageHistory w)) = map ledger_key (prisma_usageHistory w)"
    by (simp add: k)
  then show ?thesis
    using assms unfolding recordUsageHistory_history Some f_def by (simp del: map_map)
qed

lemma recordUsageHistory_nonneg:
  assumes "list_all (\<lambda>r. 0 \<le> uh_usageBytes r) (prisma_usageHistory w)" "0 \<le> n"
  shows "list_all (\<lambda>r. 0 \<le> uh_usageBytes r) (prisma_usageHistory (recordUsageHistory w userId n))"
  using assms
  by (auto simp: recordUsageHistory_history list_all_iff split: option.splits)



lemma checkAndReset_ledger:
  assumes "checkAndResetQuotaIfNeeded w userId d = (r, w')"
  shows "prisma_usageHistory w' = prisma_usageHistory w"
  using checkAndReset_frame(2) [of w userId d] assms by simp

lemma checkUserStorageQuota_ledger:
  assumes "checkUserStorageQuota w userId n = (r, w')"
  shows "prisma_usageHistory w' = prisma_usageHistory w"
proof (cases "prisma_user w userId")
  case None
  then show ?thesis using assms by (simp add: checkUserStorageQuota_def)
next
  case (Some u)
  obtain x w1 where c: "checkAndResetQuotaIfNeeded w userId (u_nextQuotaResetDate u) = (x, w1)"
    by (cases "checkAndResetQuotaIfNeeded w userId (u_nextQuotaResetDate u)")
  have "w' = w1"
    using assms by (auto simp: checkUserStorageQuota_def Some c Let_def
        split: sum.splits option.splits)
  then show ?thesis using checkAndReset_ledger [OF c] by simp
qed

lemma prisma_file_create_ledger:
  assumes "prisma_file_create w d = (r, w')"
  shows "prisma_usageHistory w' = prisma_usageHistory w"
  using assms
  by (auto simp: prisma_file_create_def uuidv4_def Date_now_def Let_def split: option.splits)

lemma prisma_file_delete_ledger:
  assumes "prisma_file_delete w fid = (r, w')"
  shows "prisma_usageHistory w' = prisma_usageHistory w"
  using assms by (auto simp: prisma_file_delete_def split: option.splits)

lemma prisma_update_user_ledger:
  assumes "prisma_update_user w userId f = (r, w')"
  shows "prisma_usageHistory w' = prisma_usageHistory w"
  using assms by (auto simp: prisma_update_user_def split: option.splits)

lemma with_storage_ledger:
  assumes "with_storage w x = (r, w')"
  shows "prisma_usageHistory w' = prisma_usageHistory w"
  using assms by (auto simp: with_storage_def)

lemma uuidv4_ledger:
  assumes "uuidv4 w = (r, w')"
  shows "prisma_usageHistory w' = prisma_usageHistory w"
  using assms by (auto simp: uuidv4_def)

text \<open>
  A property of the ledger that every recording of \<open>n\<close> bytes for the user keeps is kept
  by \<open>updateUserStorageUsage\<close>, by an upload and by a delete.
\<close>

lemma updateUserStorageUsage_ledger:
  assumes step: "\<And>v. P (prisma_usageHistory v)
            \<Longrightarrow> P (prisma_usageHistory (recordUsageHistory v userId n))"
    and p: "P (prisma_usageHistory w)"
    and run: "updateUserStorageUsage w userId n = (r, w')"
  shows "P (prisma_usageHistory w')"
proof (cases "prisma_user w userId")
  case None
  then show ?thesis using run p by (simp add: updateUserStorageUsage_def)
next
  case (Some u)
  obtain x w1 where c: "checkAndResetQuotaIfNeeded w userId (u_nextQuotaResetDate u) = (x, w1)"
    by (cases "checkAndResetQuotaIfNeeded w userId (u_nextQuotaResetDate u)")
  obtain y w2 where
    u: "prisma_update_user w1 userId (\<lambda>u. u\<lparr>u_monthlyUsage := u_monthlyUsage u + n\<rparr>) = (y, w2)"
    by (cases "prisma_update_user w1 userId (\<lambda>u. u\<lparr>u_monthlyUsage := u_monthlyUsage u + n\<rparr>)")
  have p1: "P (prisma_usageHistory w1)" using p checkAndReset_ledger [OF c] by simp
  have p2: "P (prisma_usageHistory w2)" using p1 prisma_update_user_ledger [OF u] by simp
  have "w' = w1 \<or> w' = w2 \<or> w' = recordUsageHistory w2 userId n"
    using run by (auto simp: updateUserStorageUsage_def Some c u split: sum.splits)
  then show ?thesis using p1 p2 step [OF p2] by auto
qed

lemma deleteFile_ledger:
  assumes step: "\<And>v n. P (prisma_usageHistory v)
            \<Longrightarrow> P (prisma_usageHistory (recordUsageHistory v userId n))"
    and p: "P (prisma_usageHistory w)"
  shows "P (prisma_usageHistory (snd (FilesService_deleteFile w fileId userId)))"
proof (cases "prisma_file w fileId")
  case None
  then show ?thesis using p by (simp add: FilesService_deleteFile_def)
next
  case (Some f)
  show ?thesis
  proof (cases "f_userId f \<noteq> userId")
    case True
    then show ?thesis using p by (simp add: FilesService_deleteFile_def Some)
  next
    case False
    obtain s w1 where s: "with_storage w
        (StorageService_deleteFile (storage w) (f_cloudPath f) (f_cloudProvider f)) = (s, w1)"
      by (cases "with_storage w
        (StorageService_deleteFile (storage w) (f_cloudPath f) (f_cloudProvider f))")
    obtain d w2 where d: "prisma_file_delete w1 fileId = (d, w2)"
      by (cases "prisma_file_delete w1 fileId")
    obtain u w3 where u: "updateUserStorageUsage w2 userId (- f_size f) = (u, w3)"
      by (cases "updateUserStorageUsage w2 userId (- f_size f)")
    have own: "f_userId f = userId" using False by simp
    have p1: "P (prisma_usageHistory w1)" using p with_storage_ledger [OF s] by simp
    have p2: "P (prisma_usageHistory w2)" using p1 prisma_file_delete_ledger [OF d] by simp
    have p3: "P (prisma_usageHistory w3)"
      by (rule updateUserStorageUsage_ledger [OF step p2 u])
    have "snd (FilesService_deleteFile w fileId userId) = w1
        \<or> snd (FilesService_deleteFile w fileId userId) = w2
        \<or> snd (FilesService_deleteFile w fileId userId) = w3"
      by (simp add: FilesService_deleteFile_def Some own s d u Let_def split: sum.splits)
    then show ?thesis using p1 p2 p3 by auto
  qed
qed


lemma uploadFile_ledger:
  assumes step: "\<And>v. P (prisma_usageHistory v)
            \<Longrightarrow> P (prisma_usageHistory (recordUsageHistory v userId (mf_size file)))"
    and p: "P (prisma_usageHistory w)"
  shows "P (prisma_usageHistory (snd (FilesService_uploadFile w file userId)))"
proof -
  obtain q w1 where q: "checkUserStorageQuota w userId (mf_size file) = (q, w1)"
    by (cases "checkUserStorageQuota w userId (mf_size file)")
  have p1: "P (prisma_usageHistory w1)" using p checkUserStorageQuota_ledger [OF q] by simp
  show ?thesis
  proof (cases "q = Inr True")
    case False
    then have "snd (FilesService_uploadFile w file userId) = w1"
      by (cases q) (simp_all add: FilesService_uploadFile_def q Let_def)
    then show ?thesis using p1 by simp
  next
    case True
    obtain uuid w2 where g: "uuidv4 w1 = (uuid, w2)" by (cases "uuidv4 w1")
    define cloudPath where "cloudPath
      = ''uploads/'' @ userId @ ''/'' @ (uuid @ ''.'' @ split_pop (CHR ''.'') (mf_originalname file))"
    obtain s w3 where s: "with_storage w2
        (StorageService_uploadFile (storage w2) (mf_buffer file) cloudPath (mf_mimetype file))
          = (s, w3)"
      by (cases "with_storage w2
        (StorageService_uploadFile (storage w2) (mf_buffer file) cloudPath (mf_mimetype file))")
    have p2: "P (prisma_usageHistory w2)" using p1 uuidv4_ledger [OF g] by simp
    have p3: "P (prisma_usageHistory w3)" using p2 with_storage_ledger [OF s] by simp
    have run: "FilesService_uploadFile w file userId
      = (case s of
           Inl e \<Rightarrow> (Inl e, w3)
         | Inr uploadResult \<Rightarrow>
             (case prisma_file_create w3
                     (\<lambda>now. \<lparr>f_name = uuid @ CHR ''.'' # split_pop (CHR ''.'') (mf_originalname file),
                              f_originalName = mf_originalname file,
                              f_size = mf_size file,
                              f_mimeType = mf_mimetype file,
                              f_cloudProvider = ur_provider uploadResult,
                              f_cloudPath = ur_key uploadResult,
                              f_userId = userId,
                              f_uploadedAt = now\<rparr>) of
                (Inl e, w4) \<Rightarrow> (Inl e, w4)
              | (Inr (fid, fileRecord), w4) \<Rightarrow>
                  (case updateUserStorageUsage w4 userId (mf_size file) of
                     (Inl e, w5) \<Rightarrow> (Inl e, w5)
                   | (Inr _, w5) \<Rightarrow>
                       (Inr \<lparr>dto_id = fid,
                             dto_name = f_name fileRecord,
                             dto_originalName = f_originalName fileRecord,
                             dto_size = f_size fileRecord,
                             dto_uploadedAt = f_uploadedAt fileRecord,
                             dto_url = ur_location uploadResult\<rparr>,
                        w5))))"
      by (simp add: FilesService_uploadFile_def Let_def q True g
          s [unfolded cloudPath_def, simplified])
    show ?thesis
    proof (cases s)
      case (Inl e)
      then show ?thesis using p3 by (simp add: run)
    next
      case (Inr uploadResult)
      define data where "data = (\<lambda>now. \<lparr>f_name = uuid @ CHR ''.'' # split_pop (CHR ''.'') (mf_originalname file),
                              f_originalName = mf_originalname file,
                              f_size = mf_size file,
                              f_mimeType = mf_mimetype file,
                              f_cloudProvider = ur_provider uploadResult,
                              f_cloudPath = ur_key uploadResult,
                              f_userId = userId,
                              f_uploadedAt = now\<rparr>)"
      obtain c w4 where c: "prisma_file_create w3 data = (c, w4)"
        by (cases "prisma_file_create w3 data")
      obtain u w5 where u: "updateUserStorageUsage w4 userId (mf_size file) = (u, w5)"
        by (cases "updateUserStorageUsage w4 userId (mf_size file)")
      have p4: "P (prisma_usageHistory w4)" using p3 prisma_file_create_ledger [OF c] by simp
      have p5: "P (prisma_usageHistory w5)"
        by (rule updateUserStorageUsage_ledger [OF step p4 u])
      have "snd (FilesService_uploadFile w file userId) = w4
          \<or> snd (FilesService_uploadFile w file userId) = w5"
        unfolding run Inr sum.case data_def [symmetric] c
        by (simp add: u split: sum.splits prod.splits)
      then show ?thesis using p4 p5 by auto
    qed
  qed
qed


lemma perform_one_entry_per_day:
  assumes "one_entry_per_day w"
  shows "one_entry_per_day (perform w r)"
proof (cases r)
  case (Upload upl userId)
  have "distinct (map ledger_key
      (prisma_usageHistory (snd (FilesService_uploadFile w upl userId))))"
    by (rule uploadFile_ledger [where P = "\<lambda>h. distinct (map ledger_key h)"])
       (use assms in \<open>simp_all add: recordUsageHistory_keys one_entry_per_day_def\<close>)
  then show ?thesis by (simp add: Upload one_entry_per_day_def)
next
  case (Delete fileId userId)
  have "distinct (map ledger_key
      (prisma_usageHistory (snd (FilesService_deleteFile w fileId userId))))"
    by (rule deleteFile_ledger [where P = "\<lambda>h. distinct (map ledger_key h)"])
       (use assms in \<open>simp_all add: recordUsageHistory_keys one_entry_per_day_def\<close>)
  then show ?thesis by (simp add: Delete one_entry_per_day_def)
qed

lemma perform_upload_nonnegative:
  assumes "entries_nonnegative w" "is_upload r"
  shows "entries_nonnegative (perform w r)"
proof (cases r)
  case (Upload upl userId)
  then have n: "0 \<le> mf_size upl" using assms by simp
  have "list_all (\<lambda>r. 0 \<le> uh_usageBytes r)
      (prisma_usageHistory (snd (FilesService_uploadFile w upl userId)))"
    by (rule uploadFile_ledger [where P = "list_all (\<lambda>r. 0 \<le> uh_usageBytes r)"])
       (use assms n in \<open>simp_all add: recordUsageHistory_nonneg entries_nonnegative_def\<close>)
  then show ?thesis by (simp add: Upload entries_nonnegative_def)
next
  case (Delete fileId userId)
  then show ?thesis using assms by simp
qed

lemma foldl_one_entry_per_day:
  "one_entry_per_day w \<Longrightarrow> one_entry_per_day (foldl perform w reqs)"
  by (induction reqs arbitrary: w) (simp_all add: perform_one_entry_per_day)

lemma foldl_upload_nonnegative:
  "entries_nonnegative w \<Longrightarrow> \<forall>r\<in>set reqs. is_upload r
     \<Longrightarrow> entries_nonnegative (foldl perform w reqs)"
  by (induction reqs arbitrary: w) (simp_all add: perform_upload_nonnegative)


section \<open>Claims about the calendar arithmetic\<close>

text \<open>
  Claim C6, as it holds on the code. For every date from the year 100 on, and provided
  that the two local times \<open>addOneMonth\<close> asks the \<^verbatim>\<open>Date\<close> constructor for (the
  midnight that begins the last day of the following month, and the day one calendar
  month later at the same time of day) exist in the time zone of the process and lie in
  the range of \<^verbatim>\<open>Date\<close>, \<open>addOneMonth\<close> returns a date; the date increments the month
  field, rolls the year when the month overflows December, clamps the day of the month
  to the last valid day of the resulting month, and has the same hours, minutes, seconds
  and milliseconds. In particular, in UTC, 31 January 2025 gives 28 February 2025 and
  31 January 2024 gives 29 February 2024, at the same time of day.
\<close>

theorem addOneMonth_local_calendar:
  assumes "100 \<le> getFullYear_tz z orig"
    and "representable z (last_day_midnight (LocalTime z orig))"
    and "representable z (one_month_later (LocalTime z orig))"
  shows "(\<exists>r. addOneMonth_tz z orig = Some r
       \<and> getFullYear_tz z r
           = (if getMonth_tz z orig = 11 then getFullYear_tz z orig + 1
              else getFullYear_tz z orig)
       \<and> getMonth_tz z r = (if getMonth_tz z orig = 11 then 0 else getMonth_tz z orig + 1)
       \<and> getDate_tz z r
           = min (getDate_tz z orig)
               (last_day_of_month (getFullYear_tz z r) (getMonth_tz z r))
       \<and> getHours_tz z r = getHours_tz z orig
       \<and> getMinutes_tz z r = getMinutes_tz z orig
       \<and> getSeconds_tz z r = getSeconds_tz z orig
       \<and> getMilliseconds_tz z r = getMilliseconds_tz z orig)
     \<and> new_Date_tz utc 2025 0 31 10 20 30 400 = Some 1738318830400
     \<and> addOneMonth_tz utc 1738318830400 = new_Date_tz utc 2025 1 28 10 20 30 400
     \<and> new_Date_tz utc 2025 1 28 10 20 30 400 = Some 1740738030400
     \<and> new_Date_tz utc 2024 0 31 10 20 30 400 = Some 1706696430400
     \<and> addOneMonth_tz utc 1706696430400 = new_Date_tz utc 2024 1 29 10 20 30 400
     \<and> new_Date_tz utc 2024 1 29 10 20 30 400 = Some 1709202030400"
proof -
  define L where "L = LocalTime z orig"
  define r where "r = UTC z (one_month_later L)"
  have a: "addOneMonth_tz z orig = Some r"
    unfolding r_def L_def by (rule addOneMonth_tz_eq [OF assms])
  have l: "LocalTime z r = one_month_later L"
    unfolding r_def L_def by (rule addOneMonth_tz_eq [OF assms])
  have "getFullYear_tz z r
           = (if getMonth_tz z orig = 11 then getFullYear_tz z orig + 1
              else getFullYear_tz z orig)
       \<and> getMonth_tz z r = (if getMonth_tz z orig = 11 then 0 else getMonth_tz z orig + 1)
       \<and> getDate_tz z r
           = min (getDate_tz z orig)
               (last_day_of_month (getFullYear_tz z r) (getMonth_tz z r))
       \<and> getHours_tz z r = getHours_tz z orig
       \<and> getMinutes_tz z r = getMinutes_tz z orig
       \<and> getSeconds_tz z r = getSeconds_tz z orig
       \<and> getMilliseconds_tz z r = getMilliseconds_tz z orig"
    unfolding getFullYear_tz_def getMonth_tz_def getDate_tz_def getHours_tz_def
      getMinutes_tz_def getSeconds_tz_def getMilliseconds_tz_def l L_def [symmetric]
      one_month_later_fields
    by (simp add: year_after_def month_after_def)
  with a have g: "\<exists>r. addOneMonth_tz z orig = Some r
       \<and> getFullYear_tz z r
           = (if getMonth_tz z orig = 11 then getFullYear_tz z orig + 1
              else getFullYear_tz z orig)
       \<and> getMonth_tz z r = (if getMonth_tz z orig = 11 then 0 else getMonth_tz z orig + 1)
       \<and> getDate_tz z r
           = min (getDate_tz z orig)
               (last_day_of_month (getFullYear_tz z r) (getMonth_tz z r))
       \<and> getHours_tz z r = getHours_tz z orig
       \<and> getMinutes_tz z r = getMinutes_tz z orig
       \<and> getSeconds_tz z r = getSeconds_tz z orig
       \<and> getMilliseconds_tz z r = getMilliseconds_tz z orig"
    by blast
  have e: "new_Date_tz utc 2025 0 31 10 20 30 400 = Some 1738318830400"
    "addOneMonth_tz utc 1738318830400 = new_Date_tz utc 2025 1 28 10 20 30 400"
    "new_Date_tz utc 2025 1 28 10 20 30 400 = Some 1740738030400"
    "new_Date_tz utc 2024 0 31 10 20 30 400 = Some 1706696430400"
    "addOneMonth_tz utc 1706696430400 = new_Date_tz utc 2024 1 29 10 20 30 400"
    "new_Date_tz utc 2024 1 29 10 20 30 400 = Some 1709202030400"
    by code_simp+
  show ?thesis
    by (rule conjI [OF g]) (simp only: e simp_thms)
qed

text \<open>
  The hypotheses hold in the zone of New York on 31 January 2025 at 10:20:30.400 local
  time, and the result is 28 February 2025 at 10:20:30.400 local time.
\<close>

theorem addOneMonth_local_calendar_witness:
  "100 \<le> getFullYear_tz new_york_2025 1738336830400
   \<and> representable new_york_2025 (last_day_midnight (LocalTime new_york_2025 1738336830400))
   \<and> representable new_york_2025 (one_month_later (LocalTime new_york_2025 1738336830400))
   \<and> getMonth_tz new_york_2025 1738336830400 = 0
   \<and> getDate_tz new_york_2025 1738336830400 = 31
   \<and> getHours_tz new_york_2025 1738336830400 = 10
   \<and> (\<exists>r. addOneMonth_tz new_york_2025 1738336830400 = Some r
        \<and> getFullYear_tz new_york_2025 r = 2025
        \<and> getMonth_tz new_york_2025 r = 1
        \<and> getDate_tz new_york_2025 r = 28
        \<and> getHours_tz new_york_2025 r = 10
        \<and> getMinutes_tz new_york_2025 r = 20
        \<and> getSeconds_tz new_york_2025 r = 30
        \<and> getMilliseconds_tz new_york_2025 r = 400)"
proof -
  have y: "getFullYear_tz new_york_2025 1738336830400 = 2025" by code_simp
  have m: "getMonth_tz new_york_2025 1738336830400 = 0" by code_simp
  have d: "getDate_tz new_york_2025 1738336830400 = 31" by code_simp
  have t: "getHours_tz new_york_2025 1738336830400 = 10"
    "getMinutes_tz new_york_2025 1738336830400 = 20"
    "getSeconds_tz new_york_2025 1738336830400 = 30"
    "getMilliseconds_tz new_york_2025 1738336830400 = 400" by code_simp+
  have l: "last_day_of_month 2025 1 = 28" by code_simp
  have h1: "100 \<le> getFullYear_tz new_york_2025 1738336830400" unfolding y by simp
  have h2: "representable new_york_2025
      (last_day_midnight (LocalTime new_york_2025 1738336830400))" by code_simp
  have h3: "representable new_york_2025
      (one_month_later (LocalTime new_york_2025 1738336830400))" by code_simp
  show ?thesis
    using addOneMonth_local_calendar [OF h1 h2 h3] h1 h2 h3 unfolding y m d t
    by (auto simp: l)
qed

text \<open>
  Claim C6 as stated, for every date, fails in a time zone with daylight saving. In the
  zone of New York, \<open>addOneMonth\<close> of 9 February 2025 at 02:30 local time is
  9 March 2025 at 03:30 local time: the clocks go from 02:00 to 03:00 on that day, the
  local time 02:30 does not exist, and the \<^verbatim>\<open>Date\<close> constructor moves it forward by the
  hour. The time of day is not preserved. The date 9 February 2025 at 02:30 is itself
  the reset instant \<open>addOneMonth\<close> gives to a clock reading of 9 January 2025 at 02:30.
\<close>

theorem addOneMonth_dst_gap_counterexample:
  "addOneMonth_tz new_york_2025 1736407800000 = Some 1739086200000
   \<and> getFullYear_tz new_york_2025 1739086200000 = 2025
   \<and> getMonth_tz new_york_2025 1739086200000 = 1
   \<and> getDate_tz new_york_2025 1739086200000 = 9
   \<and> getHours_tz new_york_2025 1739086200000 = 2
   \<and> getMinutes_tz new_york_2025 1739086200000 = 30
   \<and> addOneMonth_tz new_york_2025 1739086200000 = Some 1741505400000
   \<and> getMonth_tz new_york_2025 1741505400000 = 2
   \<and> getDate_tz new_york_2025 1741505400000 = 9
   \<and> getHours_tz new_york_2025 1741505400000 = 3
   \<and> getMinutes_tz new_york_2025 1741505400000 = 30
   \<and> getHours_tz new_york_2025 1741505400000 \<noteq> getHours_tz new_york_2025 1739086200000"
  by code_simp


section \<open>Claims about ownership and the statistics\<close>

text \<open>
  Claim C9. Ownership isolation: when the file exists and belongs to another user, the
  metadata read, the download and the delete each fail with the exception
  \<^verbatim>\<open>NotFoundException('File not found')\<close> and leave the state as it was (no storage call
  is made); the exception is the one the same call returns when no record with that id
  exists at all, so a caller cannot tell the two cases apart. The download is taken with
  any implementation of the storage service's \<open>downloadFile\<close>.
\<close>

theorem ownership_isolation:
  assumes "prisma_file w fileId = Some file" and "f_userId file \<noteq> userId"
  shows "FilesService_getFile w fileId userId = (Inl (NotFoundException ''File not found''), w)
     \<and> FilesService_getFileForDownload downloadFile w fileId userId
         = (Inl (NotFoundException ''File not found''), w)
     \<and> FilesService_deleteFile w fileId userId = (Inl (NotFoundException ''File not found''), w)
     \<and> fst (FilesService_getFile (w\<lparr>prisma_file := (prisma_file w)(fileId := None)\<rparr>)
              fileId userId)
         = fst (FilesService_getFile w fileId userId)
     \<and> fst (FilesService_getFileForDownload downloadFile
              (w\<lparr>prisma_file := (prisma_file w)(fileId := None)\<rparr>) fileId userId)
         = fst (FilesService_getFileForDownload downloadFile w fileId userId)
     \<and> fst (FilesService_deleteFile (w\<lparr>prisma_file := (prisma_file w)(fileId := None)\<rparr>)
              fileId userId)
         = fst (FilesService_deleteFile w fileId userId)"
  using assms
  by (simp add: FilesService_getFile_def FilesService_getFileForDownload_def
        FilesService_deleteFile_def)

theorem ownership_isolation_witness:
  "prisma_file world0 ''f1'' = Some file1 \<and> f_userId file1 \<noteq> ''u-root''
   \<and> FilesService_getFile world0 ''f1'' ''u-root''
        = (Inl (NotFoundException ''File not found''), world0)
   \<and> FilesService_getFileForDownload StorageService_downloadFile world0 ''f1'' ''u-root''
        = (Inl (NotFoundException ''File not found''), world0)
   \<and> FilesService_deleteFile world0 ''f1'' ''u-root''
        = (Inl (NotFoundException ''File not found''), world0)"
proof -
  have a: "prisma_file world0 ''f1'' = Some file1" by (simp add: world0_def)
  have b: "f_userId file1 \<noteq> ''u-root''" by (simp add: file1_def)
  show ?thesis
    using ownership_isolation [OF a b, of StorageService_downloadFile] a b by simp
qed

text \<open>
  Claim C10. The daily usage statistics are admin-gated: for a caller that exists and is
  not an administrator, \<open>StatsService.getDailyUsageStats\<close> fails with
  \<^verbatim>\<open>ForbiddenException('Admin access required')\<close>, returns no statistics and reads
  nothing else; whenever the operation returns statistics, the caller is an existing
  administrator.
\<close>

theorem stats_admin_gated:
  "(\<forall>u. prisma_user w userId = Some u \<and> \<not> u_isAdmin u \<longrightarrow>
        StatsService_getDailyUsageStats w userId
          = (Inl (ForbiddenException ''Admin access required''), w))
   \<and> (\<forall>stats w'. StatsService_getDailyUsageStats w userId = (Inr stats, w') \<longrightarrow>
        (\<exists>u. prisma_user w userId = Some u \<and> u_isAdmin u))"
  by (auto simp: StatsService_getDailyUsageStats_def isAdmin_def
        split: option.splits prod.splits if_splits)

theorem stats_admin_gated_witness:
  "prisma_user world0 ''u-alice'' = Some alice \<and> \<not> u_isAdmin alice
   \<and> StatsService_getDailyUsageStats world0 ''u-alice''
        = (Inl (ForbiddenException ''Admin access required''), world0)
   \<and> fst (StatsService_getDailyUsageStats world0 ''u-root'')
        = Inr [\<lparr>st_username = ''alice'', st_usageBytes = 600, st_usageMB = 600 / 1048576\<rparr>]
   \<and> (\<exists>u. prisma_user world0 ''u-root'' = Some u \<and> u_isAdmin u)"
proof -
  have a: "prisma_user world0 ''u-alice'' = Some alice" by (simp add: world0_def)
  have b: "\<not> u_isAdmin alice" by (simp add: alice_def)
  have c: "fst (StatsService_getDailyUsageStats world0 ''u-root'')
        = Inr [\<lparr>st_username = ''alice'', st_usageBytes = 600, st_usageMB = 600 / 1048576\<rparr>]"
    by (simp add: StatsService_getDailyUsageStats_def isAdmin_def world0_def root_def alice_def
          UsersService_getDailyUsageStats_def Date_now_def setHours0_ex List.map_filter_def)
  then obtain w' where c': "StatsService_getDailyUsageStats world0 ''u-root''
        = (Inr [\<lparr>st_username = ''alice'', st_usageBytes = 600, st_usageMB = 600 / 1048576\<rparr>], w')"
    by (cases "StatsService_getDailyUsageStats world0 ''u-root''") simp
  from stats_admin_gated [of world0 "''u-alice''"] a b
  have 1: "StatsService_getDailyUsageStats world0 ''u-alice''
        = (Inl (ForbiddenException ''Admin access required''), world0)" by blast
  from stats_admin_gated [of world0 "''u-root''"] c'
  have 2: "\<exists>u. prisma_user world0 ''u-root'' = Some u \<and> u_isAdmin u" by blast
  show ?thesis using a b c 1 2 by simp
qed


section \<open>Claims about the upload and delete coordinators\<close>

text \<open>
  Claim C3. When the capacity check of an upload returns false, that is when the usage
  after the rollover plus the size of the file exceeds the capacity of the user,
  \<open>FilesService.uploadFile\<close> fails with
  \<^verbatim>\<open>BadRequestException('Storage quota exceeded (5GB limit)')\<close> in the state the check
  left: no provider method is called (the storage state, call logs included, is the one
  before), no file record is created and no usage history row is written; the state
  differs from the one before by the rollover only, and when the reset date is in the
  future the user table and the usage are unchanged. In the example state the user with
  capacity 1000 and usage 600 who uploads 500 bytes is rejected and the usage stays 600.
\<close>

theorem quota_exceeded_no_side_effects:
  assumes "checkUserStorageQuota w userId (mf_size file) = (Inr False, w1)"
  shows "FilesService_uploadFile w file userId
           = (Inl (BadRequestException ''Storage quota exceeded (5GB limit)''), w1)
     \<and> storage w1 = storage w
     \<and> prisma_file w1 = prisma_file w
     \<and> prisma_usageHistory w1 = prisma_usageHistory w
     \<and> (\<exists>u u1. prisma_user w userId = Some u \<and> prisma_user w1 userId = Some u1
           \<and> u_maxStorageCapacity u < u_monthlyUsage u1 + mf_size file
           \<and> w1 = snd (checkAndResetQuotaIfNeeded w userId (u_nextQuotaResetDate u))
           \<and> (\<forall>r. u_nextQuotaResetDate u = Some r \<and> clock w 0 < r \<longrightarrow>
                  prisma_user w1 = prisma_user w \<and> u_monthlyUsage u1 = u_monthlyUsage u))"
proof -
  from checkUserStorageQuota_cases [OF assms]
  obtain u u1 where u: "prisma_user w userId = Some u"
    and w1: "w1 = snd (checkAndResetQuotaIfNeeded w userId (u_nextQuotaResetDate u))"
    and u1: "prisma_user w1 userId = Some u1"
    and b: "False = (u_monthlyUsage u1 + mf_size file \<le> u_maxStorageCapacity u)"
    by blast
  have up: "FilesService_uploadFile w file userId
           = (Inl (BadRequestException ''Storage quota exceeded (5GB limit)''), w1)"
    using assms by (simp add: FilesService_uploadFile_def)
  have frame: "storage w1 = storage w" "prisma_file w1 = prisma_file w"
    "prisma_usageHistory w1 = prisma_usageHistory w"
    unfolding w1 by (rule checkAndReset_frame)+
  have nd: "prisma_user w1 = prisma_user w \<and> u_monthlyUsage u1 = u_monthlyUsage u"
    if "u_nextQuotaResetDate u = Some r" "clock w 0 < r" for r
  proof -
    have "w1 = snd (Date_now w)" unfolding w1 using that by (simp add: checkAndReset_not_due)
    then have "prisma_user w1 = prisma_user w" by (simp add: Date_now_frame)
    with u u1 show ?thesis by simp
  qed
  show ?thesis using up frame u u1 b w1 nd by auto
qed

theorem quota_exceeded_no_side_effects_witness:
  "checkUserStorageQuota world0 ''u-alice'' 500
     = (Inr False, world0\<lparr>clock := (\<lambda>n. clock world0 (Suc n))\<rparr>)
   \<and> fst (FilesService_uploadFile world0
        \<lparr>mf_originalname = ''more.txt'', mf_mimetype = ''text/plain'', mf_size = 500,
         mf_buffer = replicate 500 0\<rparr> ''u-alice'')
       = Inl (BadRequestException ''Storage quota exceeded (5GB limit)'')
   \<and> map_option u_monthlyUsage
        (prisma_user (snd (FilesService_uploadFile world0
           \<lparr>mf_originalname = ''more.txt'', mf_mimetype = ''text/plain'', mf_size = 500,
            mf_buffer = replicate 500 0\<rparr> ''u-alice'')) ''u-alice'') = Some 600
   \<and> storage (snd (FilesService_uploadFile world0
           \<lparr>mf_originalname = ''more.txt'', mf_mimetype = ''text/plain'', mf_size = 500,
            mf_buffer = replicate 500 0\<rparr> ''u-alice'')) = storage world0"
proof -
  define upl where "upl = \<lparr>mf_originalname = ''more.txt'', mf_mimetype = ''text/plain'',
     mf_size = 500, mf_buffer = replicate 500 (0 :: 8 word)\<rparr>"
  have q: "checkUserStorageQuota world0 ''u-alice'' (mf_size upl)
     = (Inr False, world0\<lparr>clock := (\<lambda>n. clock world0 (Suc n))\<rparr>)"
    using world0_quota by (simp add: upl_def)
  have u: "map_option u_monthlyUsage
     (prisma_user (world0\<lparr>clock := (\<lambda>n. clock world0 (Suc n))\<rparr>) ''u-alice'') = Some 600"
    by (simp add: world0_def alice_def)
  from quota_exceeded_no_side_effects [OF q] u world0_quota
  show ?thesis unfolding upl_def by simp
qed

text \<open>
  Claim C4: for every owned file, if the storage delete fails because the provider
  cannot delete the object (the delete of the adapter does not succeed), then
  \<open>FilesService.deleteFile\<close> removes no record and adjusts no quota. The code does not
  keep to it. Both adapters catch the error of a failed delete and return false,
  \<open>StorageService.deleteFile\<close> returns that boolean, and \<open>FilesService.deleteFile\<close>
  awaits the call without reading the result. Evaluated on the example state with an AWS
  backend whose delete call fails: the delete of the adapter returns false, and
  \<open>FilesService.deleteFile\<close> on the file of its owner returns true, removes the record
  and takes the 600 bytes off the usage, while the object is still in the bucket. The
  other failure of the storage delete, a provider id that names no adapter, does abort
  the operation with the state unchanged (lemma \<open>deleteFile_storage_raises_aborts\<close>).
\<close>

theorem deleteFile_ignores_failed_delete:
  "fst (provider_deleteFile (awsProvider (storage world_delete_fails)) ''uploads/u-alice/f1.txt'')
     = False
   \<and> prisma_file world_delete_fails ''f1'' = Some file1
   \<and> f_userId file1 = ''u-alice''
   \<and> map_option u_monthlyUsage (prisma_user world_delete_fails ''u-alice'') = Some 600
   \<and> fst (FilesService_deleteFile world_delete_fails ''f1'' ''u-alice'') = Inr True
   \<and> prisma_file (snd (FilesService_deleteFile world_delete_fails ''f1'' ''u-alice'')) ''f1''
       = None
   \<and> map_option u_monthlyUsage
        (prisma_user (snd (FilesService_deleteFile world_delete_fails ''f1'' ''u-alice''))
           ''u-alice'') = Some 0
   \<and> objects (awsProvider (storage (snd (FilesService_deleteFile world_delete_fails ''f1''
        ''u-alice''))))  ''uploads/u-alice/f1.txt''
       = objects aws0 ''uploads/u-alice/f1.txt''"
  by (simp add: FilesService_deleteFile_def with_storage_def StorageService_deleteFile_def
        getProviderByName_aws deref_def assign_def provider_deleteFile_def logged_def
        prisma_file_delete_def updateUserStorageUsage_def checkAndResetQuotaIfNeeded_def
        Date_now_def prisma_update_user_def recordUsageHistory_def setHours0_ex in_day_def
        world_delete_fails_def world0_def aws0_def gcp0_def alice_def file1_def Let_def)

section \<open>Claims about the storage orchestrator\<close>

text \<open>
  Claim C1. For every ordered list of providers, buffer, key and content type, the loop
  of \<open>StorageService.uploadFile\<close> returns the result of the first provider of the list
  whose \<^verbatim>\<open>isAvailable()\<close> returned true and whose upload succeeded, tagged with the
  identifier of that provider, and none when there is no such provider. It calls
  \<^verbatim>\<open>uploadFile\<close> only on providers that reported available. The bytes are stored at
  the provider of the result and at no other: the objects of at most one provider change,
  and of none when the loop fails. On the two configured providers the service returns
  that result, or fails with
  \<^verbatim>\<open>ServiceUnavailableException('All storage providers are unavailable')\<close>.
\<close>

theorem uploadFile_failover:
  "fst (uploadFile_loop ps file key mt)
     = map_option (\<lambda>p. upload_result p file key) (find usable ps)
   \<and> length (snd (uploadFile_loop ps file key mt)) = length ps
   \<and> (\<forall>i<length ps.
         UploadFile key \<in> set (new_calls (ps ! i) (snd (uploadFile_loop ps file key mt) ! i))
           \<longrightarrow> reachable (ps ! i))
   \<and> (\<forall>i<length ps.
         usable (ps ! i) \<and> \<not> list_ex usable (take i ps)
           \<longrightarrow> objects (snd (uploadFile_loop ps file key mt) ! i) key
                 = Some \<lparr>so_body = file, so_contentType = mt\<rparr>)
   \<and> (\<forall>i<length ps.
         objects (snd (uploadFile_loop ps file key mt) ! i) \<noteq> objects (ps ! i)
           \<longrightarrow> usable (ps ! i) \<and> \<not> list_ex usable (take i ps))
   \<and> (\<forall>i<length ps. \<forall>j<length ps.
         objects (snd (uploadFile_loop ps file key mt) ! i) \<noteq> objects (ps ! i)
         \<and> objects (snd (uploadFile_loop ps file key mt) ! j) \<noteq> objects (ps ! j)
           \<longrightarrow> i = j)
   \<and> (find usable ps = None \<longrightarrow>
         (\<forall>i<length ps. objects (snd (uploadFile_loop ps file key mt) ! i) = objects (ps ! i)))
   \<and> fst (StorageService_uploadFile s file key mt)
       = (case find usable (providers s) of
            Some p \<Rightarrow> Inr (upload_result p file key)
          | None \<Rightarrow> Inl (ServiceUnavailableException ''All storage providers are unavailable''))"
proof -
  let ?ps' = "snd (uploadFile_loop ps file key mt)"
  have calls: "UploadFile key \<in> set (new_calls (ps ! i) (?ps' ! i)) \<longrightarrow> reachable (ps ! i)"
    if "i < length ps" for i
    unfolding uploadFile_loop_nth [OF that] by (simp add: new_calls_def usable_def)
  have stores: "usable (ps ! i) \<and> \<not> list_ex usable (take i ps)
      \<longrightarrow> objects (?ps' ! i) key = Some \<lparr>so_body = file, so_contentType = mt\<rparr>"
    if "i < length ps" for i
    unfolding uploadFile_loop_nth [OF that] by simp
  have changed: "objects (?ps' ! i) \<noteq> objects (ps ! i)
      \<longrightarrow> usable (ps ! i) \<and> \<not> list_ex usable (take i ps)"
    if "i < length ps" for i
    unfolding uploadFile_loop_nth [OF that] by simp
  have one: "objects (?ps' ! i) \<noteq> objects (ps ! i) \<and> objects (?ps' ! j) \<noteq> objects (ps ! j)
      \<longrightarrow> i = j"
    if "i < length ps" "j < length ps" for i j
    using changed [OF that(1)] changed [OF that(2)] first_usable_unique [OF that] by blast
  have none: "objects (?ps' ! i) = objects (ps ! i)"
    if "find usable ps = None" "i < length ps" for i
    using changed [OF that(2)] find_None_not_usable [OF that] by blast
  have svc: "fst (StorageService_uploadFile s file key mt)
       = (case find usable (providers s) of
            Some p \<Rightarrow> Inr (upload_result p file key)
          | None \<Rightarrow> Inl (ServiceUnavailableException ''All storage providers are unavailable''))"
    using uploadFile_loop_result [of "providers s" "file" "key" "mt"]
    by (auto simp: StorageService_uploadFile_def split: prod.splits option.splits)
  show ?thesis
    using uploadFile_loop_result [of ps "file" "key" "mt"] uploadFile_loop_length [of ps "file" "key" "mt"]
      calls stores changed one none svc
    by (intro conjI allI impI) blast+
qed

theorem uploadFile_failover_witness:
  "find usable [aws_down, gcp0] = Some gcp0 \<and> \<not> reachable aws_down
   \<and> fst (uploadFile_loop [aws_down, gcp0] [1, 2, 3] ''k'' ''text/plain'')
       = Some \<lparr>ur_provider = ''gcp'', ur_location = ''https://storage.googleapis.com/bucket-g/k'',
               ur_key = ''k'', ur_size = 3\<rparr>
   \<and> UploadFile ''k'' \<notin> set (new_calls aws_down
         (snd (uploadFile_loop [aws_down, gcp0] [1, 2, 3] ''k'' ''text/plain'') ! 0))
   \<and> objects (snd (uploadFile_loop [aws_down, gcp0] [1, 2, 3] ''k'' ''text/plain'') ! 1) ''k''
       = Some \<lparr>so_body = [1, 2, 3], so_contentType = ''text/plain''\<rparr>
   \<and> objects (snd (uploadFile_loop [aws_down, gcp0] [1, 2, 3] ''k'' ''text/plain'') ! 0)
       = objects aws_down
   \<and> fst (StorageService_uploadFile \<lparr>awsProvider = aws_down, gcpProvider = gcp0\<rparr>
            [1, 2, 3] ''k'' ''text/plain'')
       = Inr \<lparr>ur_provider = ''gcp'', ur_location = ''https://storage.googleapis.com/bucket-g/k'',
              ur_key = ''k'', ur_size = 3\<rparr>"
proof -
  note t = uploadFile_failover [of "[aws_down, gcp0]" "[1, 2, 3]" "''k''" "''text/plain''"
      "\<lparr>awsProvider = aws_down, gcpProvider = gcp0\<rparr>"]
  have r: "upload_result gcp0 [1, 2, 3] ''k''
      = \<lparr>ur_provider = ''gcp'', ur_location = ''https://storage.googleapis.com/bucket-g/k'',
         ur_key = ''k'', ur_size = 3\<rparr>"
    by (simp add: upload_result_def provider_tag_def upload_location_def gcp0_def)
  from t have 1: "fst (uploadFile_loop [aws_down, gcp0] [1, 2, 3] ''k'' ''text/plain'')
      = map_option (\<lambda>p. upload_result p [1, 2, 3] ''k'') (find usable [aws_down, gcp0])"
    by (elim conjE)
  from t have 2: "\<forall>i<length [aws_down, gcp0].
         UploadFile ''k'' \<in> set (new_calls ([aws_down, gcp0] ! i)
            (snd (uploadFile_loop [aws_down, gcp0] [1, 2, 3] ''k'' ''text/plain'') ! i))
           \<longrightarrow> reachable ([aws_down, gcp0] ! i)"
    by (elim conjE)
  from t have 3: "\<forall>i<length [aws_down, gcp0].
         usable ([aws_down, gcp0] ! i) \<and> \<not> list_ex usable (take i [aws_down, gcp0])
           \<longrightarrow> objects (snd (uploadFile_loop [aws_down, gcp0] [1, 2, 3] ''k'' ''text/plain'') ! i)
                  ''k'' = Some \<lparr>so_body = [1, 2, 3], so_contentType = ''text/plain''\<rparr>"
    by (elim conjE)
  from t have 4: "\<forall>i<length [aws_down, gcp0].
         objects (snd (uploadFile_loop [aws_down, gcp0] [1, 2, 3] ''k'' ''text/plain'') ! i)
            \<noteq> objects ([aws_down, gcp0] ! i)
           \<longrightarrow> usable ([aws_down, gcp0] ! i) \<and> \<not> list_ex usable (take i [aws_down, gcp0])"
    by (elim conjE)
  from t have 5: "fst (StorageService_uploadFile \<lparr>awsProvider = aws_down, gcpProvider = gcp0\<rparr>
            [1, 2, 3] ''k'' ''text/plain'')
       = (case find usable (providers \<lparr>awsProvider = aws_down, gcpProvider = gcp0\<rparr>) of
            Some p \<Rightarrow> Inr (upload_result p [1, 2, 3] ''k'')
          | None \<Rightarrow> Inl (ServiceUnavailableException ''All storage providers are unavailable''))"
    by (elim conjE)
  have a: "UploadFile ''k'' \<notin> set (new_calls aws_down
         (snd (uploadFile_loop [aws_down, gcp0] [1, 2, 3] ''k'' ''text/plain'') ! 0))"
    using 2 [rule_format, of 0] usable_example(1) by auto
  have b: "objects (snd (uploadFile_loop [aws_down, gcp0] [1, 2, 3] ''k'' ''text/plain'') ! 1) ''k''
       = Some \<lparr>so_body = [1, 2, 3], so_contentType = ''text/plain''\<rparr>"
    using 3 [rule_format, of 1] usable_example by simp
  have c: "objects (snd (uploadFile_loop [aws_down, gcp0] [1, 2, 3] ''k'' ''text/plain'') ! 0)
       = objects aws_down"
    using 4 [rule_format, of 0] usable_example(2) by auto
  show ?thesis
    using 1 5 a b c usable_example by (simp add: r providers_def)
qed

text \<open>
  Claim C2, as it holds on the code. The repository has two copies of \<open>StorageService\<close>.
  The \<open>downloadFile\<close> of the copy with failover (source \<^verbatim>\<open>unnamed/part_005\<close>) first
  takes the download of the adapter matching the recorded provider id when that provider
  is available and its download succeeds; otherwise it returns the first successful
  download among the configured providers in priority order, and it fails with
  \<^verbatim>\<open>ServiceUnavailableException\<close> only when no configured provider can serve the key;
  the buckets are left as they were. The \<open>downloadFile\<close> of the other copy (source
  \<^verbatim>\<open>unnamed/part_004\<close>) tries the recorded provider only and fails with
  \<^verbatim>\<open>ServiceUnavailableException\<close> whenever that provider cannot serve the key.
\<close>

theorem downloadFile_first_success:
  assumes "well_typed s"
  shows "fst (StorageService_downloadFile s key provider)
       = (case recorded_serving s key provider of
            Some p \<Rightarrow> Inr (download_result p key)
          | None \<Rightarrow>
              (case first_serving s key of
                 Some p \<Rightarrow> Inr (download_result p key)
               | None \<Rightarrow> Inl (ServiceUnavailableException
                                ''Unable to download file from any storage provider'')))
     \<and> ((\<exists>e. fst (StorageService_downloadFile s key provider) = Inl e) \<longrightarrow>
           \<not> can_serve (awsProvider s) key \<and> \<not> can_serve (gcpProvider s) key)
     \<and> same_backend (awsProvider s)
           (awsProvider (snd (StorageService_downloadFile s key provider)))
     \<and> same_backend (gcpProvider s)
           (gcpProvider (snd (StorageService_downloadFile s key provider)))
     \<and> fst (StorageService_downloadFile_recorded_only s key provider)
       = (case recorded_serving s key provider of
            Some p \<Rightarrow> Inr (download_result p key)
          | None \<Rightarrow> Inl (ServiceUnavailableException
                           (''Storage provider is currently unavailable. The file will be sent ''
                            @ ''to your registered email once service is restored.'')))"
proof -
  obtain r1 s1 where sel: "download_selected s key provider = (r1, s1)"
    by (cases "download_selected s key provider")
  have r1: "r1 = map_option (\<lambda>p. download_result p key) (recorded_serving s key provider)"
    and a1: "same_backend (awsProvider s) (awsProvider s1)"
    and g1: "same_backend (gcpProvider s) (gcpProvider s1)"
    using download_selected_eq [of s key provider] by (simp_all add: sel)
  obtain r2 ps where fo: "downloadFile_failover provider (providers s1) key = (r2, ps)"
    by (cases "downloadFile_failover provider (providers s1) key")
  have r2: "r2 = map_option (\<lambda>p. download_result p key)
         (find (\<lambda>p. getProviderName p \<noteq> provider \<and> can_serve p key) [awsProvider s1, gcpProvider s1])"
    and a2: "same_backend (awsProvider s1) (ps ! 0)"
    and g2: "same_backend (gcpProvider s1) (ps ! 1)"
    using failover_two [where provider = provider and a = "awsProvider s1" and g = "gcpProvider s1" and key = "key"] fo
    by (simp_all add: providers_def)
  have res: "StorageService_downloadFile s key provider
      = (case r1 of Some result \<Rightarrow> (Inr result, s1)
         | None \<Rightarrow> (case r2 of Some result \<Rightarrow> (Inr result, with_providers s1 ps)
                    | None \<Rightarrow> (Inl (ServiceUnavailableException
                         ''Unable to download file from any storage provider''),
                         with_providers s1 ps)))"
    by (simp add: StorageService_downloadFile_def sel fo split: option.splits)
  have r2': "r2 = map_option (\<lambda>p. download_result p key) (first_serving s key)"
    if "recorded_serving s key provider = None"
    unfolding r2 by (rule failover_after_selected [OF assms that a1 g1])
  have fst_eq: "fst (StorageService_downloadFile s key provider)
       = (case recorded_serving s key provider of
            Some p \<Rightarrow> Inr (download_result p key)
          | None \<Rightarrow>
              (case first_serving s key of
                 Some p \<Rightarrow> Inr (download_result p key)
               | None \<Rightarrow> Inl (ServiceUnavailableException
                                ''Unable to download file from any storage provider'')))"
  proof (cases "recorded_serving s key provider")
    case None
    then show ?thesis using r2' [OF None] by (simp add: res r1 split: option.splits)
  next
    case (Some p)
    then show ?thesis by (simp add: res r1)
  qed
  have fails: "\<not> can_serve (awsProvider s) key \<and> \<not> can_serve (gcpProvider s) key"
    if "fst (StorageService_downloadFile s key provider) = Inl e" for e
    using that unfolding fst_eq
    by (auto simp: first_serving_def providers_def split: option.splits if_splits)
  have sa: "same_backend (awsProvider s)
           (awsProvider (snd (StorageService_downloadFile s key provider)))"
    using a1 same_backend_trans [OF a1 a2]
    by (simp add: res with_providers_def split: option.splits)
  have sg: "same_backend (gcpProvider s)
           (gcpProvider (snd (StorageService_downloadFile s key provider)))"
    using g1 same_backend_trans [OF g1 g2]
    by (simp add: res with_providers_def split: option.splits)
  have ro: "fst (StorageService_downloadFile_recorded_only s key provider)
       = (case recorded_serving s key provider of
            Some p \<Rightarrow> Inr (download_result p key)
          | None \<Rightarrow> Inl (ServiceUnavailableException
                           (''Storage provider is currently unavailable. The file will be sent ''
                            @ ''to your registered email once service is restored.'')))"
    by (simp add: StorageService_downloadFile_recorded_only_def sel r1 split: option.splits)
  show ?thesis using fst_eq fails sa sg ro by blast
qed

theorem downloadFile_first_success_witness:
  "well_typed storage_failover
   \<and> \<not> can_serve (awsProvider storage_failover) ''uploads/u-alice/f1.txt''
   \<and> fst (StorageService_downloadFile storage_failover ''uploads/u-alice/f1.txt'' ''aws'')
       = Inr \<lparr>dr_stream = replicate 600 0, dr_mimetype = ''text/plain'', dr_size = 600,
              dr_fileName = ''f1.txt''\<rparr>"
  using downloadFile_first_success [OF storage_failover_facts(1),
      of "''uploads/u-alice/f1.txt''" "''aws''"]
  by (simp add: storage_failover_facts storage_failover_result)

text \<open>
  Claim C2 as stated fails on the copy of the service without failover: in the failover
  scenario the GCP provider is configured and can serve the key, and \<open>downloadFile\<close>
  with the recorded provider \<^verbatim>\<open>'aws'\<close> fails with \<^verbatim>\<open>ServiceUnavailableException\<close>.
\<close>

theorem downloadFile_recorded_only_counterexample:
  "can_serve (gcpProvider storage_failover) ''uploads/u-alice/f1.txt''
   \<and> gcpProvider storage_failover \<in> set (providers storage_failover)
   \<and> fst (StorageService_downloadFile_recorded_only storage_failover
            ''uploads/u-alice/f1.txt'' ''aws'')
       = Inl (ServiceUnavailableException
                (''Storage provider is currently unavailable. The file will be sent ''
                 @ ''to your registered email once service is restored.''))"
  by (simp add: StorageService_downloadFile_recorded_only_def download_selected_def
        getProviderByName_cases try_download_def provider_isAvailable_def logged_def deref_def
        assign_def providers_def can_serve_def storage_failover_def aws0_def gcp0_def)


section \<open>Claims about the quota rollover\<close>

text \<open>
  Claim C5. Let the user exist and let \<open>checkAndResetQuotaIfNeeded\<close> be called with the
  stored next reset instant, as every quota check and every usage update does. When that
  instant is absent or not after the current time (the reading \<open>now\<close> of the clock the
  check starts with), the call sets the usage to 0 and replaces the instant by
  \<open>addOneMonth\<close> applied \<open>k\<close> times to the old instant, where \<open>k\<close> is the first number
  of applications that gives a result strictly after \<open>now\<close> (all shorter iterations are
  at or before \<open>now\<close>), and \<open>k\<close> is at least 1; when the instant is absent the iteration
  starts from the current time. The loop always ends. After any reset check, and so
  after \<open>checkUserStorageQuota\<close> and \<open>updateUserStorageUsage\<close>, the stored next reset
  instant is strictly after \<open>now\<close>.
\<close>

theorem rollover_resets_and_advances:
  assumes "prisma_user w userId = Some u"
  shows "(is_due w (u_nextQuotaResetDate u) \<longrightarrow>
           (\<exists>k. prisma_user (snd (checkAndResetQuotaIfNeeded w userId (u_nextQuotaResetDate u)))
                  = (prisma_user w)(userId \<mapsto>
                      u\<lparr>u_monthlyUsage := 0,
                        u_nextQuotaResetDate :=
                          Some ((addOneMonth ^^ k) (rollover_start w (u_nextQuotaResetDate u)))\<rparr>)
                \<and> clock w 0 < (addOneMonth ^^ k) (rollover_start w (u_nextQuotaResetDate u))
                \<and> (\<forall>j<k. (addOneMonth ^^ j) (rollover_start w (u_nextQuotaResetDate u))
                             \<le> clock w 0)
                \<and> (u_nextQuotaResetDate u \<noteq> None \<longrightarrow> 0 < k)))
     \<and> fst (checkAndResetQuotaIfNeeded w userId (u_nextQuotaResetDate u)) = Inr ()
     \<and> (\<exists>u' r. prisma_user (snd (checkAndResetQuotaIfNeeded w userId (u_nextQuotaResetDate u)))
                  userId = Some u'
               \<and> u_nextQuotaResetDate u' = Some r \<and> clock w 0 < r)
     \<and> snd (checkUserStorageQuota w userId fileSize)
         = snd (checkAndResetQuotaIfNeeded w userId (u_nextQuotaResetDate u))
     \<and> (\<exists>u' r. prisma_user (snd (updateUserStorageUsage w userId fileSize)) userId = Some u'
               \<and> u_nextQuotaResetDate u' = Some r \<and> clock w 0 < r)"
proof (intro conjI impI)
  assume due: "is_due w (u_nextQuotaResetDate u)"
  define start where "start = rollover_start w (u_nextQuotaResetDate u)"
  from rollForward_iterate [of start "clock w 0"] obtain k where
    k: "rollForward start (clock w 0) = (addOneMonth ^^ k) start"
    and below: "\<forall>j<k. (addOneMonth ^^ j) start \<le> clock w 0"
    and pos: "start \<le> clock w 0 \<longrightarrow> 0 < k" by blast
  have fut: "clock w 0 < (addOneMonth ^^ k) start"
    using rollForward_future [of "clock w 0" start] k by simp
  have "u_nextQuotaResetDate u \<noteq> None \<longrightarrow> 0 < k"
    using due pos by (auto simp: is_due_def start_def rollover_start_def split: option.splits)
  then show "\<exists>k. prisma_user (snd (checkAndResetQuotaIfNeeded w userId (u_nextQuotaResetDate u)))
                  = (prisma_user w)(userId \<mapsto>
                      u\<lparr>u_monthlyUsage := 0,
                        u_nextQuotaResetDate :=
                          Some ((addOneMonth ^^ k) (rollover_start w (u_nextQuotaResetDate u)))\<rparr>)
                \<and> clock w 0 < (addOneMonth ^^ k) (rollover_start w (u_nextQuotaResetDate u))
                \<and> (\<forall>j<k. (addOneMonth ^^ j) (rollover_start w (u_nextQuotaResetDate u))
                             \<le> clock w 0)
                \<and> (u_nextQuotaResetDate u \<noteq> None \<longrightarrow> 0 < k)"
    using checkAndReset_due(2) [OF assms due] k below fut
    unfolding start_def by (intro exI [of _ k]) simp
next
  show "fst (checkAndResetQuotaIfNeeded w userId (u_nextQuotaResetDate u)) = Inr ()"
    by (cases "is_due w (u_nextQuotaResetDate u)")
       (simp_all add: checkAndReset_due(1) [OF assms] checkAndReset_not_due')
next
  show "\<exists>u' r. prisma_user (snd (checkAndResetQuotaIfNeeded w userId (u_nextQuotaResetDate u)))
                  userId = Some u'
               \<and> u_nextQuotaResetDate u' = Some r \<and> clock w 0 < r"
    by (rule checkAndReset_future [OF assms])
next
  show "snd (checkUserStorageQuota w userId fileSize)
         = snd (checkAndResetQuotaIfNeeded w userId (u_nextQuotaResetDate u))"
    using assms
    by (simp add: checkUserStorageQuota_def Let_def split: prod.splits sum.splits option.splits)
next
  from checkAndReset_future [OF assms] obtain u' r where
    u': "prisma_user (snd (checkAndResetQuotaIfNeeded w userId (u_nextQuotaResetDate u))) userId
           = Some u'"
    and r: "u_nextQuotaResetDate u' = Some r" "clock w 0 < r" by blast
  have ok: "fst (checkAndResetQuotaIfNeeded w userId (u_nextQuotaResetDate u)) = Inr ()"
    by (cases "is_due w (u_nextQuotaResetDate u)")
       (simp_all add: checkAndReset_due(1) [OF assms] checkAndReset_not_due')
  have "prisma_user (snd (updateUserStorageUsage w userId fileSize)) userId
      = Some (u'\<lparr>u_monthlyUsage := u_monthlyUsage u' + fileSize\<rparr>)"
    using assms u' ok
    by (cases "checkAndResetQuotaIfNeeded w userId (u_nextQuotaResetDate u)")
       (simp add: updateUserStorageUsage_def prisma_update_user_def recordUsageHistory_def
          Date_now_def Let_def split: option.splits)
  then show "\<exists>u' r. prisma_user (snd (updateUserStorageUsage w userId fileSize)) userId = Some u'
               \<and> u_nextQuotaResetDate u' = Some r \<and> clock w 0 < r"
    using r by simp
qed

theorem rollover_resets_and_advances_witness:
  "prisma_user world_due ''u-bob'' = Some bob
   \<and> is_due world_due (u_nextQuotaResetDate bob)
   \<and> (\<exists>k>0. map_option u_nextQuotaResetDate
         (prisma_user (snd (checkAndResetQuotaIfNeeded world_due ''u-bob''
            (u_nextQuotaResetDate bob))) ''u-bob'')
        = Some (Some ((addOneMonth ^^ k) 1730370030400))
        \<and> 1738318830400 < (addOneMonth ^^ k) 1730370030400
        \<and> (\<forall>j<k. (addOneMonth ^^ j) 1730370030400 \<le> 1738318830400))
   \<and> map_option u_monthlyUsage
         (prisma_user (snd (checkAndResetQuotaIfNeeded world_due ''u-bob''
            (u_nextQuotaResetDate bob))) ''u-bob'') = Some 0
   \<and> rollForward 1730370030400 1738318830400 = 1740738030400"
proof -
  note t = rollover_resets_and_advances [OF world_due_facts(1), of 0]
  from t world_due_facts(2) obtain k where
    k: "prisma_user (snd (checkAndResetQuotaIfNeeded world_due ''u-bob''
            (u_nextQuotaResetDate bob)))
         = (prisma_user world_due)(''u-bob'' \<mapsto>
              bob\<lparr>u_monthlyUsage := 0,
                  u_nextQuotaResetDate :=
                    Some ((addOneMonth ^^ k) (rollover_start world_due (u_nextQuotaResetDate bob)))\<rparr>)"
    and fut: "clock world_due 0
         < (addOneMonth ^^ k) (rollover_start world_due (u_nextQuotaResetDate bob))"
    and below: "\<forall>j<k. (addOneMonth ^^ j) (rollover_start world_due (u_nextQuotaResetDate bob))
         \<le> clock world_due 0"
    and pos: "u_nextQuotaResetDate bob \<noteq> None \<longrightarrow> 0 < k"
    by blast
  have "0 < k" using pos world_due_facts(4) by simp
  then show ?thesis
    using k fut below world_due_facts rollForward_example
    by (intro conjI exI [of _ k]) simp_all
qed

text \<open>
  Claim C7. The rollover is idempotent: after a first call of
  \<open>checkAndResetQuotaIfNeeded\<close>, a second call in succession, that is one whose clock
  reading is not after the first one's, or more generally is before the reset instant the
  first call left, changes neither the usage nor the reset instant: the user table is the
  one the first call left and only the clock has advanced.
\<close>

theorem rollover_idempotent:
  assumes "prisma_user w userId = Some u"
    and "w1 = snd (checkAndResetQuotaIfNeeded w userId (u_nextQuotaResetDate u))"
    and "prisma_user w1 userId = Some u1"
    and "clock w1 0 \<le> clock w 0 \<or> (\<exists>r. u_nextQuotaResetDate u1 = Some r \<and> clock w1 0 < r)"
  shows "checkAndResetQuotaIfNeeded w1 userId (u_nextQuotaResetDate u1)
           = (Inr (), w1\<lparr>clock := (\<lambda>n. clock w1 (Suc n))\<rparr>)
     \<and> prisma_user (snd (checkAndResetQuotaIfNeeded w1 userId (u_nextQuotaResetDate u1)))
           = prisma_user w1"
proof -
  from checkAndReset_future [OF assms(1)] assms(2,3) obtain r where
    r: "u_nextQuotaResetDate u1 = Some r" "clock w 0 < r" by auto
  with assms(4) have "clock w1 0 < r" by auto
  then have "\<not> is_due w1 (u_nextQuotaResetDate u1)" using r by (simp add: is_due_def)
  then have "checkAndResetQuotaIfNeeded w1 userId (u_nextQuotaResetDate u1)
           = (Inr (), w1\<lparr>clock := (\<lambda>n. clock w1 (Suc n))\<rparr>)"
    by (rule checkAndReset_not_due')
  then show ?thesis by simp
qed

theorem rollover_idempotent_witness:
  "prisma_user world_due ''u-bob'' = Some bob
   \<and> prisma_user world_rolled ''u-bob''
       = Some (bob\<lparr>u_monthlyUsage := 0, u_nextQuotaResetDate := Some 1740738030400\<rparr>)
   \<and> clock world_rolled 0 \<le> clock world_due 0
   \<and> prisma_user (snd (checkAndResetQuotaIfNeeded world_rolled ''u-bob'' (Some 1740738030400)))
       = prisma_user world_rolled"
  using rollover_idempotent [OF world_due_facts(1) world_rolled_def world_rolled_facts(1)]
    world_rolled_facts world_due_facts(1)
  by simp


section \<open>Claims about the daily usage ledger\<close>

text \<open>
  Claim C8, as it holds on the code. Requests run one after the other. Started from a
  ledger with at most one entry per user and calendar day, after every sequence of
  upload and delete operations the ledger has at most one entry per user and calendar
  day; started from a ledger whose entries are not negative, after every sequence of
  upload operations no entry is negative.
\<close>

theorem ledger_invariant:
  assumes "one_entry_per_day w"
  shows "one_entry_per_day (foldl perform w reqs)
       \<and> (entries_nonnegative w \<and> (\<forall>r\<in>set reqs. is_upload r)
            \<longrightarrow> entries_nonnegative (foldl perform w reqs))"
  using assms by (simp add: foldl_one_entry_per_day foldl_upload_nonnegative)

text \<open>
  The hypotheses hold for two uploads of 600 bytes by the same user into an empty
  ledger.
\<close>

theorem ledger_invariant_witness:
  "one_entry_per_day world_fresh \<and> entries_nonnegative world_fresh
   \<and> is_upload (Upload upload600 ''u-carol'')
   \<and> one_entry_per_day
        (foldl perform world_fresh [Upload upload600 ''u-carol'', Upload upload600 ''u-carol''])
   \<and> entries_nonnegative
        (foldl perform world_fresh [Upload upload600 ''u-carol'', Upload upload600 ''u-carol''])"
proof -
  have h: "one_entry_per_day world_fresh" "entries_nonnegative world_fresh"
    by (simp_all add: one_entry_per_day_def entries_nonnegative_def world_fresh_def)
  have u: "\<forall>r\<in>set [Upload upload600 ''u-carol'', Upload upload600 ''u-carol'']. is_upload r"
    by (simp add: upload600_def)
  have i: "is_upload (Upload upload600 ''u-carol'')" by (simp add: upload600_def)
  show ?thesis
    using ledger_invariant [OF h(1),
        of "[Upload upload600 ''u-carol'', Upload upload600 ''u-carol'']"] h u i
    by blast
qed

text \<open>
  Claim C8 as stated, with deletes, fails: \<open>deleteFile\<close> passes the negated size of the
  file to \<open>updateUserStorageUsage\<close> (\<^verbatim>\<open>Number(file.size) * -1; // Negative to decrement\<close>),
  which adds it to the entry of the day of the delete, or creates that entry. A user
  uploads 600 bytes on 31 January 2025 and deletes the file on 1 February: the ledger
  ends with an entry of 600 for 31 January and an entry of -600 for 1 February. The
  daily statistics read only the entries above zero.
\<close>

theorem ledger_negative_entry_counterexample:
  "prisma_usageHistory world_fresh = []
   \<and> fst (FilesService_uploadFile world_fresh upload600 ''u-carol'')
       = Inr \<lparr>dto_id = ''id-x'', dto_name = ''id-.txt'', dto_originalName = ''notes.txt'',
              dto_size = 600, dto_uploadedAt = 1738318830400,
              dto_url = ''https://bucket-a.s3.us-east-1.amazonaws.com/uploads/u-carol/id-.txt''\<rparr>
   \<and> fst (FilesService_deleteFile (perform world_fresh (Upload upload600 ''u-carol''))
            ''id-x'' ''u-carol'') = Inr True
   \<and> prisma_usageHistory
        (foldl perform world_fresh [Upload upload600 ''u-carol'', Delete ''id-x'' ''u-carol''])
       = [\<lparr>uh_id = 0, uh_userId = ''u-carol'', uh_date = 1738281600000, uh_usageBytes = 600\<rparr>,
          \<lparr>uh_id = 1, uh_userId = ''u-carol'', uh_date = 1738368000000, uh_usageBytes = - 600\<rparr>]
   \<and> \<not> entries_nonnegative
        (foldl perform world_fresh [Upload upload600 ''u-carol'', Delete ''id-x'' ''u-carol''])"
  by code_simp

end
